theory Spec2Isabelle
  imports Complex_Main
begin

section \<open>JavaScript arrays, as gesture-store.ts uses them\<close>

text \<open>
  Array indices are JavaScript numbers and can be negative (\<open>indexOf\<close> and
  \<open>findIndex\<close> answer \<open>-1\<close>), so they are \<open>int\<close> here. Reading \<open>xs[i]\<close>
  outside the array gives \<open>undefined\<close>, which is \<open>None\<close>; the property access
  that follows it in the source then throws a TypeError.
\<close>

definition js_get :: "'a list \<Rightarrow> int \<Rightarrow> 'a option" where
  "js_get xs i = (if 0 \<le> i \<and> i < int (length xs) then Some (xs ! nat i) else None)"

fun findIndexFrom :: "('a \<Rightarrow> bool) \<Rightarrow> 'a list \<Rightarrow> int \<Rightarrow> int" where
  "findIndexFrom p [] i = - 1"
| "findIndexFrom p (x # xs) i = (if p x then i else findIndexFrom p xs (i + 1))"

definition findIndex :: "('a \<Rightarrow> bool) \<Rightarrow> 'a list \<Rightarrow> int" where
  "findIndex p xs = findIndexFrom p xs 0"

text \<open>\<open>xs.indexOf(x)\<close> compares with \<open>===\<close>: for objects, by reference.\<close>

definition indexOf :: "'a list \<Rightarrow> 'a \<Rightarrow> int" where
  "indexOf xs x = findIndex (\<lambda>y. y = x) xs"

text \<open>
  \<open>xs.splice(start, 1)\<close>: the contents of the array afterwards. A negative start
  counts from the end (so \<open>splice(-1, 1)\<close> removes the last element), a start beyond the
  end removes nothing.
\<close>

definition splice1 :: "'a list \<Rightarrow> int \<Rightarrow> 'a list" where
  "splice1 xs start =
     (let n = int (length xs);
          k = (if start < 0 then max (n + start) 0 else min start n)
      in take (nat k) xs @ drop (nat k + 1) xs)"

section \<open>Data model\<close>

text \<open>
  JavaScript numbers that carry sensor values: IEEE doubles are modelled as reals (the
  rounding of the low-pass filter is not modelled; no claim below depends on a sensor
  value), with \<open>NaN\<close> for what \<open>parseInt\<close> gives on a missing or malformed field.
  Ticks, ids and indices are integers in the source and \<open>int\<close> here.
\<close>

datatype jsnum = Finite real | NaN

fun jsmul :: "jsnum \<Rightarrow> jsnum \<Rightarrow> jsnum" where
  "jsmul (Finite a) (Finite b) = Finite (a * b)"
| "jsmul _ _ = NaN"

fun jsadd :: "jsnum \<Rightarrow> jsnum \<Rightarrow> jsnum" where
  "jsadd (Finite a) (Finite b) = Finite (a + b)"
| "jsadd _ _ = NaN"

fun jssub :: "jsnum \<Rightarrow> jsnum \<Rightarrow> jsnum" where
  "jssub (Finite a) (Finite b) = Finite (a - b)"
| "jssub _ _ = NaN"

record MotionReading =
  accelX :: jsnum
  accelY :: jsnum
  accelZ :: jsnum

record Match =
  startTime :: int
  endTime :: int

text \<open>
  The fields of class Gesture that gesture-store.ts reads and writes. \<open>'s\<close> is the type
  of GestureExampleData objects (samples and the display prototype); they are compared
  by reference in the source, by equality here.
\<close>

record 's Gesture =
  gestureID :: int
  name :: string
  samples :: "'s list"
  displayGesture :: 's

datatype error = TypeError | SyntaxError | ParseError

text \<open>
  A method that can throw returns the store as it stands when it returns or throws: an
  exception does not undo the assignments made before it.
\<close>

datatype 'a outcome = Normal 'a | Throw error 'a

fun post :: "'a outcome \<Rightarrow> 'a" where
  "post (Normal s) = s"
| "post (Throw e s) = s"

text \<open>The exception a call has ended with, if any.\<close>

fun thrown :: "'a outcome \<Rightarrow> error option" where
  "thrown (Normal s) = None"
| "thrown (Throw e s) = Some e"

section \<open>External collaborators\<close>

text \<open>
  What gesture-store.ts imports and calls but does not define: the matcher class
  SingleDTWCore (\<open>'m\<close> is the type of its instances, \<open>'d\<close> of the cropped training
  data), the methods of class Gesture, and the platform's JSON and parseInt (\<open>'r\<close> is
  the type of one parsed JSON gesture record). They are parameters of the model. A
  method that mutates its receiver returns the receiver's new state. Each of them is
  taken to return when it is called; only \<open>JSON.parse\<close> and \<open>parseGesture\<close> can
  refuse their argument, which is a throw.
\<close>

datatype 'r json = JThrows | JFalsy | JNotArray | JArray "'r list"

record ('s, 'm, 'd, 'r) collaborators =
  newCore :: "int \<Rightarrow> string \<Rightarrow> 'm"
  update :: "'m \<Rightarrow> 'd \<Rightarrow> int \<Rightarrow> 'm"
  prototype :: "'m \<Rightarrow> 's"
  isRunning :: "'m \<Rightarrow> bool"
  feed :: "'m \<Rightarrow> MotionReading \<Rightarrow> 'm \<times> Match option"
  generateBlock :: "'m \<Rightarrow> string"
  generateNamespace :: "string list \<Rightarrow> string"
  getCroppedData :: "'s Gesture \<Rightarrow> 'd"
  parseGesture :: "'r \<Rightarrow> error + 's Gesture"
  JSON_parse :: "string \<Rightarrow> 'r json"
  JSON_stringify :: "'s Gesture list \<Rightarrow> string"
  parseInt :: "string option \<Rightarrow> jsnum"

section \<open>The store\<close>

text \<open>
  Messages posted to the host, and messages received from it. \<open>in_event = None\<close> is a
  message without an event name (a response). \<open>in_id\<close> is the property key that
  \<open>data.id\<close> converts to.
\<close>

datatype body = NoBody | WriteCode string string

record request =
  msg_type :: string
  action :: string
  msg_extId :: string
  response :: bool
  msg_id :: string
  msg_body :: body

record ExtensionMessage =
  in_type :: string
  in_event :: "string option"
  in_id :: string
  body_sim :: bool
  body_data :: string
  resp_code :: string
  resp_json :: "string option"

text \<open>
  The object \<open>gestureStore\<close> and what it reaches. \<open>this.gestures\<close> is a reference to
  an array object whose elements are references to Gesture objects: \<open>slice()\<close> makes a
  new array object that shares the Gesture objects, \<open>push\<close> and \<open>splice\<close> change an
  array object in place. So the store holds a heap of gesture arrays (\<open>arrays\<close>), a
  heap of Gesture objects (\<open>objects\<close>), and in \<open>gestures\<close> the address of the
  published array. The matchers are objects too (\<open>cores\<close>), and \<open>this.models\<close> is
  the list of their addresses: a matcher can be reached through a reference that mobx
  has kept for the getter \<open>currentModel\<close> as well as through the array.

  \<open>currentModel\<close> is a mobx \<open>@computed\<close> getter whose body reads only
  \<open>this.models\<close> and \<open>this.curGestureIndex\<close>, and neither of them is
  \<open>@observable\<close>. Mobx runs the body of a computed getter when it holds no value for
  it, and holds on to a value while a reaction observes the getter or a batch is open,
  until something observable that the body has read changes: here, never. So the store
  carries what mobx holds for the getter (\<open>currentModelCache\<close>): nothing, and the body
  runs at each read (Uncached); nothing yet, but the next value will be kept (Pending); or
  a value, which every read returns whatever \<open>models\<close> and \<open>curGestureIndex\<close> have
  become (Cached).
  A method marked \<open>@action\<close> runs in a batch of its own, which ends when the method
  returns. Between two reads of the getter in one method below neither \<open>models\<close> nor
  \<open>curGestureIndex\<close> changes, so a value kept to the end of that batch is the value the
  body gives again, and the store records only what outlives the method: what a reaction
  or an enclosing batch makes mobx keep.

  The closures of the constructor are fields too: the three low-pass filters
  (\<open>previousSmoothed\<close> of each) and the \<open>timeout\<close> variable of the debounced
  \<open>saveBlocks\<close>. The environment is explicit: \<open>clock\<close> (milliseconds) and
  \<open>timers\<close> (handle and due time of every pending \<open>setTimeout\<close>), the values
  \<open>Math.random().toString()\<close> will return (\<open>randoms\<close>, of which \<open>drawn\<close> are
  used), whether the page is embedded in a host frame, and the messages posted to it.
\<close>

datatype 'v computed = Uncached | Pending | Cached 'v

record ('s, 'm) GestureStore =
  arrays :: "nat \<Rightarrow> nat list"
  nextArray :: nat
  objects :: "nat \<rightharpoonup> 's Gesture"
  nextObject :: nat
  gestures :: nat
  connected_flag :: "bool option"
  hasBeenModified :: bool
  readings :: "MotionReading list"
  latestTimestamp :: int
  matches :: "Match list"
  models :: "nat list"
  cores :: "nat \<rightharpoonup> 'm"
  nextCore :: nat
  currentModelCache :: "nat option computed"
  idToType :: "string \<rightharpoonup> string"
  extId :: string
  curGestureIndex :: int
  filterX :: jsnum
  filterY :: jsnum
  filterZ :: jsnum
  timeout :: "nat option"
  clock :: nat
  timers :: "(nat \<times> nat) list"
  nextHandle :: nat
  randoms :: "nat \<Rightarrow> string"
  drawn :: nat
  embedded :: bool
  outbox :: "request list"

definition READING_HISTORY_LIMIT :: nat where
  "READING_HISTORY_LIMIT = 30"

text \<open>The contents of the array \<open>this.gestures\<close> refers to, and the Gesture objects there.\<close>

definition catalog :: "('s, 'm) GestureStore \<Rightarrow> nat list" where
  "catalog s = arrays s (gestures s)"

text \<open>The Gesture object at an address that has been allocated.\<close>

definition gestureAt :: "('s, 'm) GestureStore \<Rightarrow> nat \<Rightarrow> 's Gesture" where
  "gestureAt s r = the (objects s r)"

definition gestureList :: "('s, 'm) GestureStore \<Rightarrow> 's Gesture list" where
  "gestureList s = map (gestureAt s) (catalog s)"

text \<open>\<open>a.slice()\<close>: a new array object with the elements of the array at \<open>a\<close>.\<close>

definition slice :: "('s, 'm) GestureStore \<Rightarrow> nat \<Rightarrow> nat \<times> ('s, 'm) GestureStore" where
  "slice s a =
     (nextArray s,
      s\<lparr>arrays := (arrays s)(nextArray s := arrays s a), nextArray := nextArray s + 1\<rparr>)"

text \<open>The matcher object at an address that has been allocated, and the matchers of the
  array \<open>this.models\<close>.\<close>

definition coreAt :: "('s, 'm) GestureStore \<Rightarrow> nat \<Rightarrow> 'm" where
  "coreAt s c = the (cores s c)"

definition matcherList :: "('s, 'm) GestureStore \<Rightarrow> 'm list" where
  "matcherList s = map (coreAt s) (models s)"

text \<open>
  A read of the getter \<open>currentModel\<close>: the matcher reference it returns
  (\<open>None\<close> for \<open>undefined\<close>) and the store afterwards. The body is
  \<open>this.models[this.curGestureIndex]\<close>.
\<close>

definition currentModel :: "('s, 'm) GestureStore \<Rightarrow> nat option \<times> ('s, 'm) GestureStore" where
  "currentModel s =
     (case currentModelCache s of
        Cached v \<Rightarrow> (v, s)
      | Pending \<Rightarrow>
          (let v = js_get (models s) (curGestureIndex s)
           in (v, s\<lparr>currentModelCache := Cached v\<rparr>))
      | Uncached \<Rightarrow> (js_get (models s) (curGestureIndex s), s))"

text \<open>
  What mobx does to the getter from outside the store: a batch opens or a reaction starts
  to track (the next value read will be kept), a reaction reads the getter and goes on
  observing it, and the last observer goes or the batch closes.
\<close>

definition mobxTrack :: "('s, 'm) GestureStore \<Rightarrow> ('s, 'm) GestureStore" where
  "mobxTrack s =
     (case currentModelCache s of Uncached \<Rightarrow> s\<lparr>currentModelCache := Pending\<rparr> | _ \<Rightarrow> s)"

definition mobxObserve :: "('s, 'm) GestureStore \<Rightarrow> ('s, 'm) GestureStore" where
  "mobxObserve s = snd (currentModel (mobxTrack s))"

definition mobxRelease :: "('s, 'm) GestureStore \<Rightarrow> ('s, 'm) GestureStore" where
  "mobxRelease s = s\<lparr>currentModelCache := Uncached\<rparr>"

subsection \<open>The host channel: sendRequest\<close>

definition sendRequest ::
  "('s, 'm) GestureStore \<Rightarrow> string \<Rightarrow> body \<Rightarrow> ('s, 'm) GestureStore" where
  "sendRequest s act bdy =
     (let i = randoms s (drawn s);
          s1 = s\<lparr>drawn := drawn s + 1\<rparr>;
          s2 = s1\<lparr>idToType := (idToType s1)(i \<mapsto> act)\<rparr>;
          msg = \<lparr>msg_type = ''pxtpkgext'', action = act, msg_extId = extId s2,
                 response = True, msg_id = i, msg_body = bdy\<rparr>
      in if embedded s2 then s2\<lparr>outbox := outbox s2 @ [msg]\<rparr> else s2)"

subsection \<open>Persistence: debounce, saveBlocksNow, markDirty\<close>

text \<open>
  \<open>clearTimeout(h)\<close> cancels the pending timer with handle \<open>h\<close> (and does nothing for
  \<open>undefined\<close>, \<open>null\<close> or a timer that has fired); \<open>setTimeout(later, wait)\<close> adds a
  timer due \<open>wait\<close> milliseconds from now and returns its handle.
\<close>

definition clearTimeout :: "('s, 'm) GestureStore \<Rightarrow> nat option \<Rightarrow> ('s, 'm) GestureStore" where
  "clearTimeout s h =
     (case h of None \<Rightarrow> s
      | Some k \<Rightarrow> s\<lparr>timers := filter (\<lambda>t. fst t \<noteq> k) (timers s)\<rparr>)"

definition setTimeout :: "('s, 'm) GestureStore \<Rightarrow> nat \<Rightarrow> nat \<times> ('s, 'm) GestureStore" where
  "setTimeout s wait =
     (nextHandle s,
      s\<lparr>timers := timers s @ [(nextHandle s, clock s + wait)], nextHandle := nextHandle s + 1\<rparr>)"

text \<open>
  \<open>saveBlocks = debounce(() => this.saveBlocksNow(), 2000)\<close>: the function that
  debounce returns, with \<open>immediate\<close> undefined (so \<open>callNow\<close> is false). One call
  cancels the timer it set before and sets a new one.
\<close>

definition saveBlocks :: "('s, 'm) GestureStore \<Rightarrow> ('s, 'm) GestureStore" where
  "saveBlocks s =
     (let s1 = clearTimeout s (timeout s);
          (h, s2) = setTimeout s1 2000
      in s2\<lparr>timeout := Some h\<rparr>)"

definition saveBlocksNow ::
  "('s, 'm, 'd, 'r) collaborators \<Rightarrow> ('s, 'm) GestureStore \<Rightarrow> ('s, 'm) GestureStore" where
  "saveBlocksNow ext s =
     (if \<not> hasBeenModified s then s
      else
        let (cloneData, s1) = slice s (gestures s);
            codeBlocks = map (generateBlock ext) (filter (isRunning ext) (matcherList s1));
            code = generateNamespace ext codeBlocks;
            json = JSON_stringify ext (gestureList s1);
            s2 = sendRequest s1 ''extwritecode'' (WriteCode code json);
            s3 = s2\<lparr>hasBeenModified := False\<rparr>
        in s3\<lparr>gestures := cloneData\<rparr>)"

text \<open>\<open>later\<close>, the timer's callback inside debounce.\<close>

definition later ::
  "('s, 'm, 'd, 'r) collaborators \<Rightarrow> ('s, 'm) GestureStore \<Rightarrow> ('s, 'm) GestureStore" where
  "later ext s = saveBlocksNow ext (s\<lparr>timeout := None\<rparr>)"

definition markDirty :: "('s, 'm) GestureStore \<Rightarrow> ('s, 'm) GestureStore" where
  "markDirty s =
     (if \<not> hasBeenModified s then saveBlocks (s\<lparr>hasBeenModified := True\<rparr>) else s)"

text \<open>
  Time passing: the clock advances by \<open>d\<close> milliseconds and every timer that is due by
  then fires, in the order the timers were set (all have the same delay). A timer that
  fires leaves the pending set and runs \<open>later\<close>.
\<close>

fun fireAll ::
  "('s, 'm, 'd, 'r) collaborators \<Rightarrow> (nat \<times> nat) list \<Rightarrow> ('s, 'm) GestureStore \<Rightarrow>
   ('s, 'm) GestureStore" where
  "fireAll ext [] s = s"
| "fireAll ext (t # ts) s =
     fireAll ext ts (later ext (s\<lparr>timers := filter (\<lambda>u. fst u \<noteq> fst t) (timers s)\<rparr>))"

definition elapse ::
  "('s, 'm, 'd, 'r) collaborators \<Rightarrow> ('s, 'm) GestureStore \<Rightarrow> nat \<Rightarrow> ('s, 'm) GestureStore" where
  "elapse ext s d =
     (let c = clock s + d
      in fireAll ext (filter (\<lambda>t. snd t \<le> c) (timers s)) (s\<lparr>clock := c\<rparr>))"

subsection \<open>The catalog: addGesture, deleteGesture, deleteIfGestureEmpty\<close>

text \<open>
  \<open>addGesture\<close> takes the Gesture that \<open>new Gesture()\<close> has constructed (class
  Gesture is not in gesture-store.ts); the object gets a fresh address. The push is on
  the array \<open>this.gestures\<close> refers to. After it \<open>curGestureIndex\<close> is the last
  index, so \<open>this.gestures[this.curGestureIndex]\<close> is the new object. The new matcher
  is a new object as well.
\<close>

definition addGesture ::
  "('s, 'm, 'd, 'r) collaborators \<Rightarrow> ('s, 'm) GestureStore \<Rightarrow> 's Gesture \<Rightarrow>
   ('s, 'm) GestureStore" where
  "addGesture ext s g =
     (let r = nextObject s;
          s1 = s\<lparr>objects := (objects s)(r \<mapsto> g), nextObject := r + 1\<rparr>;
          s2 = s1\<lparr>arrays := (arrays s1)(gestures s1 := arrays s1 (gestures s1) @ [r])\<rparr>;
          s3 = s2\<lparr>curGestureIndex := int (length (catalog s2)) - 1\<rparr>;
          cur = gestureAt s3 (catalog s3 ! nat (curGestureIndex s3));
          model = newCore ext (gestureID cur + 1) (name cur);
          c = nextCore s3;
          s4 = s3\<lparr>cores := (cores s3)(c \<mapsto> model), nextCore := c + 1\<rparr>
      in s4\<lparr>models := models s4 @ [c]\<rparr>)"

definition deleteGesture :: "('s, 'm) GestureStore \<Rightarrow> nat \<Rightarrow> ('s, 'm) GestureStore" where
  "deleteGesture s gesture =
     (let index = indexOf (catalog s) gesture
      in if index \<ge> 0 then
           let s1 = s\<lparr>arrays := (arrays s)(gestures s := splice1 (catalog s) index)\<rparr>;
               s2 = s1\<lparr>models := splice1 (models s1) index\<rparr>
           in markDirty s2
         else s)"

definition deleteIfGestureEmpty :: "('s, 'm) GestureStore \<Rightarrow> ('s, 'm) GestureStore outcome" where
  "deleteIfGestureEmpty s =
     (if length (catalog s) > 0 then
        (case js_get (catalog s) (curGestureIndex s) of
           None \<Rightarrow> Throw TypeError s
         | Some r \<Rightarrow>
             if length (samples (gestureAt s r)) = 0 then
               let (cloneData, s1) = slice s (gestures s);
                   s2 = s1\<lparr>arrays :=
                          (arrays s1)(cloneData := splice1 (arrays s1 cloneData) (curGestureIndex s1))\<rparr>;
                   s3 = s2\<lparr>models := splice1 (models s2) (curGestureIndex s2)\<rparr>
               in Normal (s3\<lparr>gestures := cloneData\<rparr>)
             else Normal s)
      else Normal s)"

subsection \<open>Samples: deleteSample, addSample, setCurrentGesture\<close>

text \<open>
  \<open>cloneData[gi]\<close> is the same Gesture object as \<open>this.gestures[gi]\<close>: the splice
  and the unshift on its \<open>samples\<close> change the object both arrays share.
  \<open>model.update\<close> changes the matcher object in place. In \<open>addSample\<close> the source
  reads \<open>gestureStore.currentModel\<close> twice, for the update and for the prototype;
  \<open>gestureStore\<close> is the one instance of the class, which is \<open>this\<close>.
\<close>

definition deleteSample ::
  "('s, 'm, 'd, 'r) collaborators \<Rightarrow> ('s, 'm) GestureStore \<Rightarrow> nat \<Rightarrow> 's \<Rightarrow>
   ('s, 'm) GestureStore outcome" where
  "deleteSample ext s gesture sample =
     (let (cloneData, s1) = slice s (gestures s);
          gi = indexOf (catalog s1) gesture
      in case js_get (catalog s1) gi of
           None \<Rightarrow> Throw TypeError s1
         | Some r \<Rightarrow>
             let si = indexOf (samples (gestureAt s1 r)) sample;
                 s2 = s1\<lparr>objects := (objects s1)
                        (r \<mapsto> (gestureAt s1 r)\<lparr>samples := splice1 (samples (gestureAt s1 r)) si\<rparr>)\<rparr>
             in case js_get (models s2) gi of
                  None \<Rightarrow> Throw TypeError s2
                | Some model \<Rightarrow>
                    let model' = update ext (coreAt s2 model) (getCroppedData ext (gestureAt s2 r))
                                   (latestTimestamp s2);
                        s3 = s2\<lparr>cores := (cores s2)(model \<mapsto> model')\<rparr>;
                        s4 = s3\<lparr>objects := (objects s3)
                               (r \<mapsto> (gestureAt s3 r)\<lparr>displayGesture := prototype ext model'\<rparr>)\<rparr>;
                        s5 = s4\<lparr>gestures := cloneData\<rparr>
                    in Normal (markDirty s5))"

text \<open>
  The lines of \<open>addSample\<close> after the unshift, for the Gesture object \<open>r\<close> that
  \<open>cloneData[gestureIndex]\<close> is: the update of \<open>gestureStore.currentModel\<close>, the
  assignment of its prototype, the assignment of \<open>this.gestures\<close> and markDirty. A read
  of the getter that gives \<open>undefined\<close> makes the method call on it throw.
\<close>

definition trainCurrentModel ::
  "('s, 'm, 'd, 'r) collaborators \<Rightarrow> ('s, 'm) GestureStore \<Rightarrow> nat \<Rightarrow> nat \<Rightarrow>
   ('s, 'm) GestureStore outcome" where
  "trainCurrentModel ext s r cloneData =
     (case currentModel s of
        (None, s1) \<Rightarrow> Throw TypeError s1
      | (Some model, s1) \<Rightarrow>
          let model' = update ext (coreAt s1 model) (getCroppedData ext (gestureAt s1 r))
                         (latestTimestamp s1);
              s2 = s1\<lparr>cores := (cores s1)(model \<mapsto> model')\<rparr>
          in case currentModel s2 of
               (None, s3) \<Rightarrow> Throw TypeError s3
             | (Some model2, s3) \<Rightarrow>
                 let s4 = s3\<lparr>objects := (objects s3)
                            (r \<mapsto> (gestureAt s3 r)
                               \<lparr>displayGesture := prototype ext (coreAt s3 model2)\<rparr>)\<rparr>;
                     s5 = s4\<lparr>gestures := cloneData\<rparr>
                 in Normal (markDirty s5))"

definition addSample ::
  "('s, 'm, 'd, 'r) collaborators \<Rightarrow> ('s, 'm) GestureStore \<Rightarrow> nat \<Rightarrow> 's \<Rightarrow>
   ('s, 'm) GestureStore outcome" where
  "addSample ext s gesture newSample =
     (let (cloneData, s1) = slice s (gestures s);
          gestureIndex = indexOf (catalog s1) gesture
      in case js_get (arrays s1 cloneData) gestureIndex of
           None \<Rightarrow> Throw TypeError s1
         | Some r \<Rightarrow>
             let s2 = s1\<lparr>objects := (objects s1)
                        (r \<mapsto> (gestureAt s1 r)\<lparr>samples := newSample # samples (gestureAt s1 r)\<rparr>)\<rparr>
             in trainCurrentModel ext s2 r cloneData)"

text \<open>
  The store on which \<open>addSample\<close> reads the getter, for a Gesture object \<open>g\<close>
  that \<open>indexOf\<close> has found in the array: \<open>slice\<close> has made the copy and
  \<open>unshift\<close> has put the sample at the front of \<open>g\<close>'s samples.
\<close>

definition unshifted ::
  "('s, 'm) GestureStore \<Rightarrow> nat \<Rightarrow> 's \<Rightarrow> ('s, 'm) GestureStore" where
  "unshifted s g a =
     s\<lparr>arrays := (arrays s)(nextArray s := catalog s), nextArray := nextArray s + 1,
       objects := (objects s)(g \<mapsto> (gestureAt s g)\<lparr>samples := a # samples (gestureAt s g)\<rparr>)\<rparr>"

definition setCurrentGesture ::
  "('s, 'm, 'd, 'r) collaborators \<Rightarrow> ('s, 'm) GestureStore \<Rightarrow> int \<Rightarrow>
   ('s, 'm) GestureStore outcome" where
  "setCurrentGesture ext s gestureId =
     (let s1 = s\<lparr>curGestureIndex :=
                 findIndex (\<lambda>g. gestureID g = gestureId) (gestureList s)\<rparr>
      in case currentModel s1 of
           (None, s2) \<Rightarrow> Throw TypeError s2
         | (Some model, s2) \<Rightarrow>
             (case js_get (catalog s2) (curGestureIndex s2) of
                None \<Rightarrow> Throw TypeError s2
              | Some r \<Rightarrow>
                  Normal (s2\<lparr>cores := (cores s2)(model \<mapsto>
                    update ext (coreAt s2 model) (getCroppedData ext (gestureAt s2 r))
                      (latestTimestamp s2))\<rparr>)))"

subsection \<open>Sensor frames and isMatch\<close>

text \<open>
  \<open>createLowPassFilter\<close>: \<open>alpha * value + (1 - alpha) * previousSmoothed\<close> with
  \<open>alpha = 0.5\<close>; the result is also the filter's next \<open>previousSmoothed\<close>.
\<close>

definition lowPass :: "jsnum \<Rightarrow> jsnum \<Rightarrow> jsnum" where
  "lowPass v previousSmoothed =
     (let alpha = Finite (1 / 2)
      in jsadd (jsmul alpha v) (jsmul (jssub (Finite 1) alpha) previousSmoothed))"

record SensorData =
  acc :: bool
  accVec :: MotionReading

text \<open>
  The last statement of the handler that the constructor registers with
  \<open>serialData\<close>: the running current matcher is fed the raw reading. The source reads
  the getter \<open>currentModel\<close> up to three times (for the test, for isRunning and for
  feed); nothing between these reads assigns \<open>models\<close> or \<open>curGestureIndex\<close>, so
  they return the same reference and the model reads once.
\<close>

definition feedCurrentModel ::
  "('s, 'm, 'd, 'r) collaborators \<Rightarrow> ('s, 'm) GestureStore \<Rightarrow> MotionReading \<Rightarrow>
   ('s, 'm) GestureStore" where
  "feedCurrentModel ext s v =
     (case currentModel s of
        (None, s1) \<Rightarrow> s1
      | (Some model, s1) \<Rightarrow>
          if isRunning ext (coreAt s1 model) then
            (case feed ext (coreAt s1 model) v of
               (model', m) \<Rightarrow>
                 let s2 = s1\<lparr>cores := (cores s1)(model \<mapsto> model')\<rparr>
                 in (case m of None \<Rightarrow> s2
                     | Some mt \<Rightarrow> s2\<lparr>matches := matches s2 @ [mt]\<rparr>))
          else s1)"

text \<open>The handler.\<close>

definition onSensorData ::
  "('s, 'm, 'd, 'r) collaborators \<Rightarrow> ('s, 'm) GestureStore \<Rightarrow> SensorData \<Rightarrow>
   ('s, 'm) GestureStore" where
  "onSensorData ext s sdata =
     (let ax = lowPass (accelX (accVec sdata)) (filterX s);
          ay = lowPass (accelY (accVec sdata)) (filterY s);
          az = lowPass (accelZ (accVec sdata)) (filterZ s);
          s1 = s\<lparr>filterX := ax, filterY := ay, filterZ := az\<rparr>;
          s2 = s1\<lparr>readings := readings s1 @ [\<lparr>accelX = ax, accelY = ay, accelZ = az\<rparr>]\<rparr>;
          s3 = s2\<lparr>latestTimestamp := latestTimestamp s2 + 1\<rparr>;
          s4 = (if length (readings s3) > READING_HISTORY_LIMIT
                then s3\<lparr>readings := tl (readings s3)\<rparr> else s3)
      in feedCurrentModel ext s4 (accVec sdata))"

definition isMatch :: "('s, 'm) GestureStore \<Rightarrow> int \<Rightarrow> bool" where
  "isMatch s readingIndex =
     (let time = latestTimestamp s - (int (length (readings s)) - 1 - readingIndex)
      in findIndex (\<lambda>m. startTime m \<le> time \<and> time \<le> endTime m) (matches s) \<ge> 0)"

subsection \<open>Hydration: loadBlocks\<close>

text \<open>
  \<open>jsonGestures.map(Gesture.parseGesture)\<close>: the first record that parseGesture
  rejects throws, before \<open>this.gestures\<close> is assigned.
\<close>

fun parseAll :: "('r \<Rightarrow> error + 'g) \<Rightarrow> 'r list \<Rightarrow> error + 'g list" where
  "parseAll f [] = Inr []"
| "parseAll f (x # xs) =
     (case f x of
        Inl e \<Rightarrow> Inl e
      | Inr g \<Rightarrow> (case parseAll f xs of Inl e \<Rightarrow> Inl e | Inr gs \<Rightarrow> Inr (g # gs)))"

text \<open>Each parsed Gesture is a new object, and so is each matcher; the result of
  \<open>map\<close> is a new array.\<close>

fun newObjects ::
  "('s, 'm) GestureStore \<Rightarrow> 's Gesture list \<Rightarrow> nat list \<times> ('s, 'm) GestureStore" where
  "newObjects s [] = ([], s)"
| "newObjects s (g # gs) =
     (let r = nextObject s;
          (rs, s') = newObjects (s\<lparr>objects := (objects s)(r \<mapsto> g), nextObject := r + 1\<rparr>) gs
      in (r # rs, s'))"

fun newCores ::
  "('s, 'm) GestureStore \<Rightarrow> 'm list \<Rightarrow> nat list \<times> ('s, 'm) GestureStore" where
  "newCores s [] = ([], s)"
| "newCores s (m # ms) =
     (let c = nextCore s;
          (cs, s') = newCores (s\<lparr>cores := (cores s)(c \<mapsto> m), nextCore := c + 1\<rparr>) ms
      in (c # cs, s'))"

definition newArray ::
  "('s, 'm) GestureStore \<Rightarrow> nat list \<Rightarrow> nat \<times> ('s, 'm) GestureStore" where
  "newArray s rs =
     (nextArray s, s\<lparr>arrays := (arrays s)(nextArray s := rs), nextArray := nextArray s + 1\<rparr>)"

text \<open>
  \<open>json\<close> is \<open>None\<close> for \<open>undefined\<close> or \<open>null\<close>; the empty string is falsy as
  well. \<open>JSON.parse\<close> throws (JThrows), or gives a falsy value such as \<open>null\<close>
  (JFalsy), a truthy value that is not an array and so has no \<open>map\<close> (JNotArray), or an
  array of records.
\<close>

definition loadBlocks ::
  "('s, 'm, 'd, 'r) collaborators \<Rightarrow> ('s, 'm) GestureStore \<Rightarrow> string \<Rightarrow> string option \<Rightarrow>
   ('s, 'm) GestureStore outcome" where
  "loadBlocks ext s code json =
     (case json of
        None \<Rightarrow> Normal s
      | Some j \<Rightarrow>
          if j = [] then Normal s
          else
            (case JSON_parse ext j of
               JThrows \<Rightarrow> Throw SyntaxError s
             | JFalsy \<Rightarrow> Normal s
             | JNotArray \<Rightarrow> Throw TypeError s
             | JArray jsonGestures \<Rightarrow>
                 (case parseAll (parseGesture ext) jsonGestures of
                    Inl e \<Rightarrow> Throw e s
                  | Inr gs \<Rightarrow>
                      let (rs, s1) = newObjects s gs;
                          (a, s2) = newArray s1 rs;
                          s3 = s2\<lparr>gestures := a\<rparr>;
                          (cs, s4) = newCores s3
                                 (map (\<lambda>gesture.
                                        update ext (newCore ext (gestureID gesture + 1) (name gesture))
                                          (getCroppedData ext gesture) (latestTimestamp s3))
                                     (gestureList s3))
                      in Normal (s4\<lparr>models := cs\<rparr>))))"

subsection \<open>Host messages: parseString, onSerialData, receiveMessage, the constructor\<close>

text \<open>\<open>strBuf.split(" ")\<close>.\<close>

fun split_at :: "char \<Rightarrow> string \<Rightarrow> string list" where
  "split_at c [] = [[]]"
| "split_at c (x # xs) =
     (if x = c then [] # split_at c xs
      else (case split_at c xs of [] \<Rightarrow> [[x]] | w # ws \<Rightarrow> (x # w) # ws))"

definition token :: "string list \<Rightarrow> nat \<Rightarrow> string option" where
  "token ts i = (if i < length ts then Some (ts ! i) else None)"

text \<open>
  The loop of parseString over the tokens from index \<open>i\<close> on: the marker \<open>A\<close> reads
  the next three tokens (\<open>undefined\<close> beyond the end) and skips them.
\<close>

fun parseTokens ::
  "('s, 'm, 'd, 'r) collaborators \<Rightarrow> string list \<Rightarrow> SensorData \<Rightarrow> SensorData" where
  "parseTokens ext [] result = result"
| "parseTokens ext (t # ts) result =
     (if t = ''A'' then
        parseTokens ext (drop 3 ts)
          (result\<lparr>accVec := \<lparr>accelX = parseInt ext (token ts 0),
                               accelY = parseInt ext (token ts 1),
                               accelZ = parseInt ext (token ts 2)\<rparr>,
                   acc := True\<rparr>)
      else parseTokens ext ts result)"

definition parseString :: "('s, 'm, 'd, 'r) collaborators \<Rightarrow> string \<Rightarrow> SensorData" where
  "parseString ext strBuf =
     parseTokens ext (split_at (CHR '' '') strBuf)
       \<lparr>acc = False, accVec = \<lparr>accelX = Finite 0, accelY = Finite 0, accelZ = Finite 0\<rparr>\<rparr>"

text \<open>
  \<open>serialData.notify(newData)\<close> calls the handlers registered with \<open>serialData\<close>;
  the store registers one, \<open>onSensorData\<close>.
\<close>

definition onSerialData ::
  "('s, 'm, 'd, 'r) collaborators \<Rightarrow> ('s, 'm) GestureStore \<Rightarrow> string \<Rightarrow> ('s, 'm) GestureStore" where
  "onSerialData ext s strBuf =
     (let newData = parseString ext strBuf;
          s1 = (if acc newData then onSensorData ext s newData else s)
      in s1\<lparr>connected_flag := Some True\<rparr>)"

definition receiveMessage ::
  "('s, 'm, 'd, 'r) collaborators \<Rightarrow> ('s, 'm) GestureStore \<Rightarrow> ExtensionMessage \<Rightarrow>
   ('s, 'm) GestureStore outcome" where
  "receiveMessage ext s data =
     (if in_event data \<noteq> None \<and> in_event data \<noteq> Some [] then
        (if in_event data = Some ''extconsole'' then
           (if body_sim data then Normal s
            else Normal (onSerialData ext s (body_data data)))
         else if in_event data = Some ''extshown'' then
           Normal (sendRequest
                     (sendRequest (s\<lparr>connected_flag := Some True\<rparr>) ''extdatastream'' NoBody)
                     ''extreadcode'' NoBody)
         else if in_event data = Some ''exthidden'' then
           Normal (s\<lparr>connected_flag := Some False\<rparr>)
         else Normal s)
      else
        let act = idToType s (in_id data);
            s1 = s\<lparr>idToType := (idToType s)(in_id data := None)\<rparr>
        in if act = Some ''extinit'' then
             Normal (sendRequest (sendRequest s1 ''extdatastream'' NoBody) ''extreadcode'' NoBody)
           else if act = Some ''extreadcode'' then
             loadBlocks ext s1 (resp_code data) (resp_json data)
           else Normal s1)"

text \<open>The field initialisers of the class, and the constructor.\<close>

definition newStore :: "(nat \<Rightarrow> string) \<Rightarrow> bool \<Rightarrow> ('s, 'm) GestureStore" where
  "newStore rnd emb =
     \<lparr>arrays = (\<lambda>a. []), nextArray = 1, objects = Map.empty, nextObject = 0, gestures = 0,
      connected_flag = None, hasBeenModified = False, readings = [], latestTimestamp = 0,
      matches = [], models = [], cores = Map.empty, nextCore = 0,
      currentModelCache = Uncached, idToType = Map.empty, extId = [], curGestureIndex = 0,
      filterX = Finite 0, filterY = Finite 0, filterZ = Finite 0, timeout = None,
      clock = 0, timers = [], nextHandle = 0, randoms = rnd, drawn = 0, embedded = emb,
      outbox = []\<rparr>"

definition constructor :: "(nat \<Rightarrow> string) \<Rightarrow> bool \<Rightarrow> string \<Rightarrow> ('s, 'm) GestureStore" where
  "constructor rnd emb hash =
     (let s1 = (newStore rnd emb)\<lparr>extId := drop 1 hash\<rparr>;
          s2 = sendRequest s1 ''extinit'' NoBody
      in s2\<lparr>filterX := Finite 0, filterY := Finite 0, filterZ := Finite 0\<rparr>)"

text \<open>The listener the constructor adds to the window.\<close>

definition onWindowMessage ::
  "('s, 'm, 'd, 'r) collaborators \<Rightarrow> ('s, 'm) GestureStore \<Rightarrow> ExtensionMessage \<Rightarrow>
   ('s, 'm) GestureStore outcome" where
  "onWindowMessage ext s data =
     (if in_type data = ''pxtpkgext'' then receiveMessage ext s data else Normal s)"

section \<open>Runs of the store\<close>

text \<open>
  The catalog operations of the alignment invariant, and a run of them. An operation
  that throws leaves the store as it stood at the throw, and the run goes on from there,
  as the next event handler would.
\<close>

datatype 's catalogOp =
    AddGesture "'s Gesture"
  | DeleteGesture nat
  | DeleteIfGestureEmpty
  | Hydrate string "string option"

fun applyOp ::
  "('s, 'm, 'd, 'r) collaborators \<Rightarrow> ('s, 'm) GestureStore \<Rightarrow> 's catalogOp \<Rightarrow>
   ('s, 'm) GestureStore" where
  "applyOp ext s (AddGesture g) = addGesture ext s g"
| "applyOp ext s (DeleteGesture r) = deleteGesture s r"
| "applyOp ext s DeleteIfGestureEmpty = post (deleteIfGestureEmpty s)"
| "applyOp ext s (Hydrate code json) = post (loadBlocks ext s code json)"

definition runOps ::
  "('s, 'm, 'd, 'r) collaborators \<Rightarrow> ('s, 'm) GestureStore \<Rightarrow> 's catalogOp list \<Rightarrow>
   ('s, 'm) GestureStore" where
  "runOps ext s ops = foldl (applyOp ext) s ops"

text \<open>The matcher array and the published gesture array have the same length.\<close>

definition aligned :: "('s, 'm) GestureStore \<Rightarrow> bool" where
  "aligned s = (length (models s) = length (catalog s))"

text \<open>A run of sensor frames, and the conditioned readings the handler makes of them
  (the filters start from the given \<open>previousSmoothed\<close> values).\<close>

definition feedAll ::
  "('s, 'm, 'd, 'r) collaborators \<Rightarrow> ('s, 'm) GestureStore \<Rightarrow> SensorData list \<Rightarrow>
   ('s, 'm) GestureStore" where
  "feedAll ext s ds = foldl (onSensorData ext) s ds"

fun conditioned :: "jsnum \<Rightarrow> jsnum \<Rightarrow> jsnum \<Rightarrow> SensorData list \<Rightarrow> MotionReading list" where
  "conditioned px py pz [] = []"
| "conditioned px py pz (d # ds) =
     \<lparr>accelX = lowPass (accelX (accVec d)) px, accelY = lowPass (accelY (accVec d)) py,
      accelZ = lowPass (accelZ (accVec d)) pz\<rparr>
     # conditioned (lowPass (accelX (accVec d)) px) (lowPass (accelY (accVec d)) py)
         (lowPass (accelZ (accVec d)) pz) ds"

text \<open>
  A burst of markDirty calls: one call, then for each delay in the list that much time
  passing and another call.
\<close>

fun dirtyBurst ::
  "('s, 'm, 'd, 'r) collaborators \<Rightarrow> ('s, 'm) GestureStore \<Rightarrow> nat list \<Rightarrow>
   ('s, 'm) GestureStore" where
  "dirtyBurst ext s [] = markDirty s"
| "dirtyBurst ext s (d # ds) = dirtyBurst ext (elapse ext (markDirty s) d) ds"

text \<open>A run of messages arriving at the window.\<close>

definition receiveAll ::
  "('s, 'm, 'd, 'r) collaborators \<Rightarrow> ('s, 'm) GestureStore \<Rightarrow> ExtensionMessage list \<Rightarrow>
   ('s, 'm) GestureStore" where
  "receiveAll ext s ms = foldl (\<lambda>s' m. post (onWindowMessage ext s' m)) s ms"

section \<open>An instance of the collaborators\<close>

text \<open>
  A matcher that records what it was constructed with and what it was last updated with,
  for evaluating the store on concrete inputs. Samples are numbers, the cropped data of
  a gesture is its sample list, and a JSON record is the gesture it describes.
\<close>

record Core =
  classNumber :: int
  coreName :: string
  trainedOn :: "(nat list \<times> int) option"

definition demo :: "(nat, Core, nat list, nat Gesture) collaborators" where
  "demo =
     \<lparr>newCore = (\<lambda>n nm. \<lparr>classNumber = n, coreName = nm, trainedOn = None\<rparr>),
      update = (\<lambda>m d t. m\<lparr>trainedOn := Some (d, t)\<rparr>),
      prototype = (\<lambda>m. case trainedOn m of None \<Rightarrow> 0 | Some (d, t) \<Rightarrow> length d),
      isRunning = (\<lambda>m. trainedOn m \<noteq> None),
      feed = (\<lambda>m r. (m, None)),
      generateBlock = coreName,
      generateNamespace = concat,
      getCroppedData = samples,
      parseGesture = Inr,
      JSON_parse = (\<lambda>j. if j = ''null'' then JFalsy
                         else if j = ''[]'' then JArray []
                         else if j = ''[{}]'' then
                           JArray [\<lparr>gestureID = 7, name = ''wave'', samples = [3], displayGesture = 3\<rparr>]
                         else JThrows),
      JSON_stringify = (\<lambda>gs. concat (map name gs)),
      parseInt = (\<lambda>t. NaN)\<rparr>"

definition demoStore :: "(nat, Core) GestureStore" where
  "demoStore = constructor (\<lambda>n. replicate (Suc n) (CHR ''r'')) True ''#gestures''"

definition demoGesture :: "nat Gesture" where
  "demoGesture = \<lparr>gestureID = 1, name = ''shake'', samples = [], displayGesture = 0\<rparr>"

definition demoMatched :: "(nat, Core) GestureStore" where
  "demoMatched =
     demoStore\<lparr>readings := replicate 12 \<lparr>accelX = Finite 0, accelY = Finite 0, accelZ = Finite 0\<rparr>,
               latestTimestamp := 11, matches := [\<lparr>startTime = 5, endTime = 10\<rparr>]\<rparr>"

definition demoFrames :: "SensorData list" where
  "demoFrames =
     map (\<lambda>i. \<lparr>acc = True, accVec = \<lparr>accelX = Finite (real i), accelY = Finite 0, accelZ = NaN\<rparr>\<rparr>)
       [0..<35]"

definition demoOne :: "(nat, Core) GestureStore" where
  "demoOne = addGesture demo demoStore demoGesture"

definition demoTwo :: "(nat, Core) GestureStore" where
  "demoTwo =
     addGesture demo demoOne \<lparr>gestureID = 2, name = ''tilt'', samples = [], displayGesture = 0\<rparr>"

text \<open>
  Two stores on which the getter does not give the matcher of the current gesture. In the
  first the second of two gestures, the current one, has been deleted: \<open>curGestureIndex\<close>
  is still 1 and the matcher array has one element. In the second a reaction has read the
  getter when there was one gesture and observes it since, and a second gesture has been
  added.
\<close>

definition demoDeleted :: "(nat, Core) GestureStore" where
  "demoDeleted = deleteGesture demoTwo 1"

definition demoObserved :: "(nat, Core) GestureStore" where
  "demoObserved =
     addGesture demo (mobxObserve demoOne)
       \<lparr>gestureID = 2, name = ''tilt'', samples = [], displayGesture = 0\<rparr>"

definition demoResponse :: ExtensionMessage where
  "demoResponse =
     \<lparr>in_type = ''pxtpkgext'', in_event = None, in_id = ''r'', body_sim = False, body_data = [],
      resp_code = [], resp_json = None\<rparr>"

section \<open>Array lemmas\<close>

lemma findIndexFrom_eq:
  "findIndexFrom p xs i =
     (if \<exists>x\<in>set xs. p x then i + int (length (takeWhile (\<lambda>x. \<not> p x) xs)) else - 1)"
  by (induction xs arbitrary: i) auto

lemma findIndex_nonneg_iff: "(0 \<le> findIndex p xs) = (\<exists>x\<in>set xs. p x)"
  by (simp add: findIndex_def findIndexFrom_eq)

lemma findIndexFrom_found:
  "\<exists>x\<in>set xs. p x \<Longrightarrow>
     i \<le> findIndexFrom p xs i \<and> findIndexFrom p xs i < i + int (length xs) \<and>
     p (xs ! nat (findIndexFrom p xs i - i))"
proof (induction xs arbitrary: i)
  case Nil
  then show ?case by simp
next
  case (Cons y ys)
  show ?case
  proof (cases "p y")
    case True
    then show ?thesis by simp
  next
    case False
    with Cons.prems have "\<exists>x\<in>set ys. p x" by auto
    from Cons.IH[OF this, of "i + 1"]
    have k: "i + 1 \<le> findIndexFrom p ys (i + 1)"
      "findIndexFrom p ys (i + 1) < i + 1 + int (length ys)"
      "p (ys ! nat (findIndexFrom p ys (i + 1) - (i + 1)))" by auto
    have "nat (findIndexFrom p ys (i + 1) - i) = Suc (nat (findIndexFrom p ys (i + 1) - (i + 1)))"
      using k(1) by linarith
    with k False show ?thesis by simp
  qed
qed

lemma indexOf_absent: "x \<notin> set xs \<Longrightarrow> indexOf xs x = - 1"
  by (simp add: indexOf_def findIndex_def findIndexFrom_eq)

lemma indexOf_present:
  "x \<in> set xs \<Longrightarrow>
     0 \<le> indexOf xs x \<and> indexOf xs x < int (length xs) \<and> xs ! nat (indexOf xs x) = x"
  using findIndexFrom_found[of xs "\<lambda>y. y = x" 0]
  by (auto simp: indexOf_def findIndex_def)

lemma js_get_indexOf: "x \<in> set xs \<Longrightarrow> js_get xs (indexOf xs x) = Some x"
  using indexOf_present[of x xs] by (simp add: js_get_def)

lemma length_splice1:
  "length (splice1 xs k) = (if k < int (length xs) then length xs - 1 else length xs)"
  by (auto simp: splice1_def Let_def min_def max_def)

section \<open>The getter and the scheduler\<close>

lemma currentModel_snd:
  "snd (currentModel s) =
     s\<lparr>currentModelCache :=
         (case currentModelCache s of
            Pending \<Rightarrow> Cached (js_get (models s) (curGestureIndex s))
          | c \<Rightarrow> c)\<rparr>"
  by (simp add: currentModel_def Let_def split: computed.splits)

lemma currentModel_fst:
  "fst (currentModel s) =
     (case currentModelCache s of
        Cached v \<Rightarrow> v
      | c \<Rightarrow> js_get (models s) (curGestureIndex s))"
  by (simp add: currentModel_def Let_def split: computed.splits)

lemma currentModel_pair: "currentModel s = (fst (currentModel s), snd (currentModel s))"
  by simp

text \<open>A second read of the getter returns what the first returned, also after a matcher or
  a Gesture object has been changed in between.\<close>

lemma currentModel_again:
  "fst (currentModel (snd (currentModel s))) = fst (currentModel s)"
  "fst (currentModel (snd (currentModel s)\<lparr>cores := cs\<rparr>)) = fst (currentModel s)"
  "fst (currentModel (snd (currentModel s)\<lparr>objects := os\<rparr>)) = fst (currentModel s)"
  by (simp_all add: currentModel_def Let_def split: computed.splits)

text \<open>Once a reaction observes the getter, mobx holds the value the getter had then; when
  the last observer is gone, a read runs the body again.\<close>

lemma mobxObserve_getter:
  "currentModelCache (mobxObserve s) = Cached (fst (currentModel s))"
  "fst (currentModel (mobxObserve s)) = fst (currentModel s)"
  by (simp_all add: mobxObserve_def mobxTrack_def currentModel_def Let_def split: computed.splits)

lemma mobxRelease_getter:
  "fst (currentModel (mobxRelease s)) = js_get (models s) (curGestureIndex s)"
  by (simp add: mobxRelease_def currentModel_def)

lemma saveBlocks_frame:
  "arrays (saveBlocks s) = arrays s" "gestures (saveBlocks s) = gestures s"
  "models (saveBlocks s) = models s" "objects (saveBlocks s) = objects s"
  "cores (saveBlocks s) = cores s" "nextCore (saveBlocks s) = nextCore s"
  "currentModelCache (saveBlocks s) = currentModelCache s"
  "nextArray (saveBlocks s) = nextArray s" "hasBeenModified (saveBlocks s) = hasBeenModified s"
  "curGestureIndex (saveBlocks s) = curGestureIndex s" "nextObject (saveBlocks s) = nextObject s"
  "latestTimestamp (saveBlocks s) = latestTimestamp s"
  by (simp_all add: saveBlocks_def clearTimeout_def setTimeout_def Let_def split: option.splits)

lemma markDirty_frame:
  "arrays (markDirty s) = arrays s" "gestures (markDirty s) = gestures s"
  "models (markDirty s) = models s" "objects (markDirty s) = objects s"
  "cores (markDirty s) = cores s" "nextCore (markDirty s) = nextCore s"
  "currentModelCache (markDirty s) = currentModelCache s"
  "nextArray (markDirty s) = nextArray s" "hasBeenModified (markDirty s) = True"
  "curGestureIndex (markDirty s) = curGestureIndex s" "nextObject (markDirty s) = nextObject s"
  "latestTimestamp (markDirty s) = latestTimestamp s"
  by (simp_all add: markDirty_def saveBlocks_frame)

lemma catalog_markDirty: "catalog (markDirty s) = catalog s"
  by (simp add: catalog_def markDirty_frame)

section \<open>deleteGesture of an absent gesture\<close>

text \<open>
  C10. deleteGesture with a gesture that is not in the catalog returns the store as it
  was: the gesture array, the matcher array and the dirty flag are unchanged, and no
  flush is scheduled (the pending timers and the debounce timeout are unchanged).
\<close>

theorem deleteGesture_absent_noop:
  assumes "gesture \<notin> set (catalog s)"
  shows "deleteGesture s gesture = s"
  using assms by (simp add: deleteGesture_def indexOf_absent)

lemma demoStore_simps:
  "arrays demoStore = (\<lambda>a. [])" "gestures demoStore = 0" "nextArray demoStore = 1"
  "nextObject demoStore = 0" "models demoStore = []" "objects demoStore = Map.empty"
  "hasBeenModified demoStore = False" "timers demoStore = []" "timeout demoStore = None"
  "clock demoStore = 0" "nextHandle demoStore = 0" "drawn demoStore = 1"
  "curGestureIndex demoStore = 0" "readings demoStore = []" "latestTimestamp demoStore = 0"
  "matches demoStore = []" "embedded demoStore = True" "cores demoStore = Map.empty"
  "nextCore demoStore = 0" "currentModelCache demoStore = Uncached"
  by (simp_all add: demoStore_def constructor_def newStore_def sendRequest_def Let_def)

lemma demo_one_gesture:
  "catalog (addGesture demo demoStore demoGesture) = [0]"
  "models (addGesture demo demoStore demoGesture) = [0]"
  "matcherList (addGesture demo demoStore demoGesture) =
     [\<lparr>classNumber = 2, coreName = ''shake'', trainedOn = None\<rparr>]"
  "hasBeenModified (addGesture demo demoStore demoGesture) = False"
  by (simp_all add: addGesture_def Let_def catalog_def demoStore_simps demo_def demoGesture_def
      gestureAt_def matcherList_def coreAt_def)

theorem deleteGesture_absent_noop_witness:
  "(7::nat) \<notin> set (catalog (addGesture demo demoStore demoGesture)) \<and>
   catalog (deleteGesture (addGesture demo demoStore demoGesture) 7) = [0] \<and>
   matcherList (deleteGesture (addGesture demo demoStore demoGesture) 7) =
     [\<lparr>classNumber = 2, coreName = ''shake'', trainedOn = None\<rparr>] \<and>
   \<not> hasBeenModified (deleteGesture (addGesture demo demoStore demoGesture) 7)"
proof -
  have h: "(7::nat) \<notin> set (catalog (addGesture demo demoStore demoGesture))"
    by (simp add: demo_one_gesture)
  from deleteGesture_absent_noop[OF h] h show ?thesis
    by (simp add: demo_one_gesture)
qed

section \<open>isMatch\<close>

text \<open>
  C6. isMatch(readingIndex) is true exactly when some recorded match has
  startTime \<le> tick \<le> endTime, for tick = latestTimestamp - (readings.length - 1 -
  readingIndex). With the one match (5, 10) recorded, a buffer position whose tick is 5, 7
  or 10 is a match, and one whose tick is 4 or 11 is not.
\<close>

theorem isMatch_inclusive:
  "(isMatch s i \<longleftrightarrow>
      (\<exists>m\<in>set (matches s).
         startTime m \<le> latestTimestamp s - (int (length (readings s)) - 1 - i) \<and>
         latestTimestamp s - (int (length (readings s)) - 1 - i) \<le> endTime m)) \<and>
   (matches s = [\<lparr>startTime = 5, endTime = 10\<rparr>] \<longrightarrow>
      (latestTimestamp s - (int (length (readings s)) - 1 - i) \<in> {5, 7, 10} \<longrightarrow> isMatch s i) \<and>
      (latestTimestamp s - (int (length (readings s)) - 1 - i) \<in> {4, 11} \<longrightarrow> \<not> isMatch s i))"
  by (auto simp add: isMatch_def Let_def findIndex_nonneg_iff)

theorem isMatch_inclusive_witness:
  "isMatch demoMatched 5 \<and> isMatch demoMatched 7 \<and> isMatch demoMatched 10 \<and>
   \<not> isMatch demoMatched 4 \<and> \<not> isMatch demoMatched 11"
proof -
  have m: "matches demoMatched = [\<lparr>startTime = 5, endTime = 10\<rparr>]"
    and t: "\<And>i. latestTimestamp demoMatched - (int (length (readings demoMatched)) - 1 - i) = i"
    by (simp_all add: demoMatched_def)
  from isMatch_inclusive[of demoMatched 5] isMatch_inclusive[of demoMatched 7]
    isMatch_inclusive[of demoMatched 10] isMatch_inclusive[of demoMatched 4]
    isMatch_inclusive[of demoMatched 11] m
  show ?thesis unfolding t by simp
qed

section \<open>Alignment of the matcher array\<close>

lemma aligned_addGesture: "aligned s \<Longrightarrow> aligned (addGesture ext s g)"
  by (simp add: aligned_def addGesture_def Let_def catalog_def)

lemma aligned_deleteGesture: "aligned s \<Longrightarrow> aligned (deleteGesture s g)"
  by (simp add: aligned_def deleteGesture_def Let_def catalog_def length_splice1 markDirty_frame)

lemma aligned_deleteIfGestureEmpty: "aligned s \<Longrightarrow> aligned (post (deleteIfGestureEmpty s))"
  by (simp add: aligned_def deleteIfGestureEmpty_def Let_def catalog_def slice_def length_splice1
      split: option.splits)

lemma newCores_frame:
  "newCores s ms = (cs, s') \<Longrightarrow>
     arrays s' = arrays s \<and> nextArray s' = nextArray s \<and> gestures s' = gestures s \<and>
     objects s' = objects s \<and> latestTimestamp s' = latestTimestamp s \<and>
     idToType s' = idToType s \<and> randoms s' = randoms s \<and> drawn s' = drawn s \<and>
     length cs = length ms"
proof (induction ms arbitrary: s cs s')
  case Nil
  then show ?case by simp
next
  case (Cons m ms)
  obtain cs0 s0 where r:
    "newCores (s\<lparr>cores := (cores s)(nextCore s \<mapsto> m), nextCore := nextCore s + 1\<rparr>) ms
       = (cs0, s0)"
    by (cases "newCores (s\<lparr>cores := (cores s)(nextCore s \<mapsto> m),
                           nextCore := nextCore s + 1\<rparr>) ms")
  from Cons.IH[OF r] Cons.prems r show ?case by (auto simp: Let_def)
qed

lemma newObjects_frame:
  "newObjects s gs = (rs, s') \<Longrightarrow>
     arrays s' = arrays s \<and> nextArray s' = nextArray s \<and> gestures s' = gestures s \<and>
     latestTimestamp s' = latestTimestamp s \<and> idToType s' = idToType s \<and>
     randoms s' = randoms s \<and> drawn s' = drawn s \<and> cores s' = cores s \<and>
     nextCore s' = nextCore s \<and> length rs = length gs"
proof (induction gs arbitrary: s rs s')
  case Nil
  then show ?case by simp
next
  case (Cons g gs)
  obtain rs0 s0 where r:
    "newObjects (s\<lparr>objects := (objects s)(nextObject s \<mapsto> g), nextObject := nextObject s + 1\<rparr>) gs
       = (rs0, s0)"
    by (cases "newObjects (s\<lparr>objects := (objects s)(nextObject s \<mapsto> g),
                             nextObject := nextObject s + 1\<rparr>) gs")
  from Cons.IH[OF r] Cons.prems r show ?case by (auto simp: Let_def)
qed

lemma loadBlocks_array:
  assumes "j \<noteq> []" and "JSON_parse ext j = JArray rs"
    and "parseAll (parseGesture ext) rs = Inr gs" and "newObjects s gs = (os, s1)"
    and "newCores
           (s1\<lparr>arrays := (arrays s1)(nextArray s1 := os), nextArray := Suc (nextArray s1),
               gestures := nextArray s1\<rparr>)
           (map (\<lambda>gesture. update ext (newCore ext (gestureID gesture + 1) (name gesture))
                   (getCroppedData ext gesture) (latestTimestamp s1))
              (gestureList
                 (s1\<lparr>arrays := (arrays s1)(nextArray s1 := os), nextArray := Suc (nextArray s1),
                     gestures := nextArray s1\<rparr>))) = (cs, s4)"
  shows "loadBlocks ext s code (Some j) = Normal (s4\<lparr>models := cs\<rparr>)"
  using assms by (simp add: loadBlocks_def newArray_def Let_def)

lemma loadBlocks_cases:
  "post (loadBlocks ext s code json) = s \<or>
   length (models (post (loadBlocks ext s code json))) =
     length (catalog (post (loadBlocks ext s code json)))"
proof (cases json)
  case None
  then show ?thesis by (simp add: loadBlocks_def)
next
  case (Some j)
  show ?thesis
  proof (cases "JSON_parse ext j")
    case (JArray rs)
    show ?thesis
    proof (cases "parseAll (parseGesture ext) rs")
      case (Inl e)
      with Some JArray show ?thesis by (simp add: loadBlocks_def)
    next
      case (Inr gs)
      show ?thesis
      proof (cases "j = []")
        case True
        with Some show ?thesis by (simp add: loadBlocks_def)
      next
        case False
        obtain rs0 s0 where r: "newObjects s gs = (rs0, s0)" by (cases "newObjects s gs")
        define s3 where "s3 = s0\<lparr>arrays := (arrays s0)(nextArray s0 := rs0),
            nextArray := Suc (nextArray s0), gestures := nextArray s0\<rparr>"
        define ms where "ms = map (\<lambda>gesture.
            update ext (newCore ext (gestureID gesture + 1) (name gesture))
              (getCroppedData ext gesture) (latestTimestamp s0)) (gestureList s3)"
        obtain cs s4 where c: "newCores s3 ms = (cs, s4)" by (cases "newCores s3 ms")
        have l: "loadBlocks ext s code json = Normal (s4\<lparr>models := cs\<rparr>)"
          unfolding Some
          by (rule loadBlocks_array[OF False JArray Inr r c[unfolded ms_def s3_def]])
        have "length cs = length (catalog s4)"
          using newCores_frame[OF c]
          by (simp add: ms_def gestureList_def catalog_def s3_def)
        then show ?thesis by (simp add: l catalog_def)
      qed
    qed
  qed (use Some in \<open>simp_all add: loadBlocks_def\<close>)
qed

lemma aligned_loadBlocks: "aligned s \<Longrightarrow> aligned (post (loadBlocks ext s code json))"
  using loadBlocks_cases[of ext s code json] by (auto simp: aligned_def)

lemma aligned_applyOp: "aligned s \<Longrightarrow> aligned (applyOp ext s op)"
  by (cases op)
    (simp_all add: aligned_addGesture aligned_deleteGesture aligned_deleteIfGestureEmpty
      aligned_loadBlocks)

lemma aligned_runOps: "aligned s \<Longrightarrow> aligned (runOps ext s ops)"
  unfolding runOps_def by (induction ops arbitrary: s) (simp_all add: aligned_applyOp)

lemma aligned_constructor: "aligned (constructor rnd emb hash)"
  by (simp add: aligned_def constructor_def newStore_def sendRequest_def Let_def catalog_def)

text \<open>
  C1. From the store the constructor builds (the empty catalog), after every sequence of
  addGesture, deleteGesture, deleteIfGestureEmpty and loadBlocks calls, whatever their
  arguments and whether or not a call throws, the matcher array is as long as the
  gesture array: at the end of the run and after each of its operations (the first
  \<open>n\<close> operations, for every \<open>n\<close>).
\<close>

theorem models_length_eq_gestures_length:
  "length (models (runOps ext (constructor rnd emb hash) (take n ops))) =
   length (catalog (runOps ext (constructor rnd emb hash) (take n ops)))"
  using aligned_runOps[OF aligned_constructor, of ext rnd emb hash "take n ops"]
  by (simp add: aligned_def)

theorem models_length_eq_gestures_length_witness:
  "length (models (runOps demo demoStore
      (take 4 [AddGesture demoGesture, DeleteGesture 0, AddGesture demoGesture,
               DeleteIfGestureEmpty, Hydrate [] (Some ''[{}]'')]))) =
   length (catalog (runOps demo demoStore
      (take 4 [AddGesture demoGesture, DeleteGesture 0, AddGesture demoGesture,
               DeleteIfGestureEmpty, Hydrate [] (Some ''[{}]'')])))"
  unfolding demoStore_def by (rule models_length_eq_gestures_length)

section \<open>The readings window\<close>

lemma feedCurrentModel_frame:
  "readings (feedCurrentModel ext s v) = readings s"
  "latestTimestamp (feedCurrentModel ext s v) = latestTimestamp s"
  "filterX (feedCurrentModel ext s v) = filterX s"
  "filterY (feedCurrentModel ext s v) = filterY s"
  "filterZ (feedCurrentModel ext s v) = filterZ s"
  "idToType (feedCurrentModel ext s v) = idToType s"
  "randoms (feedCurrentModel ext s v) = randoms s"
  "drawn (feedCurrentModel ext s v) = drawn s"
proof -
  obtain c s1 where r: "currentModel s = (c, s1)" by (cases "currentModel s")
  then have s1: "s1 = snd (currentModel s)" by simp
  have f: "readings s1 = readings s" "latestTimestamp s1 = latestTimestamp s"
    "filterX s1 = filterX s" "filterY s1 = filterY s" "filterZ s1 = filterZ s"
    "idToType s1 = idToType s" "randoms s1 = randoms s" "drawn s1 = drawn s"
    unfolding s1 currentModel_snd by simp_all
  show "readings (feedCurrentModel ext s v) = readings s"
    "latestTimestamp (feedCurrentModel ext s v) = latestTimestamp s"
    "filterX (feedCurrentModel ext s v) = filterX s"
    "filterY (feedCurrentModel ext s v) = filterY s"
    "filterZ (feedCurrentModel ext s v) = filterZ s"
    "idToType (feedCurrentModel ext s v) = idToType s"
    "randoms (feedCurrentModel ext s v) = randoms s"
    "drawn (feedCurrentModel ext s v) = drawn s"
    by (simp_all add: feedCurrentModel_def r f Let_def split: option.splits prod.splits)
qed

lemma onSensorData_readings:
  "readings (onSensorData ext s d) =
     (let rs = readings s @ [\<lparr>accelX = lowPass (accelX (accVec d)) (filterX s),
                               accelY = lowPass (accelY (accVec d)) (filterY s),
                               accelZ = lowPass (accelZ (accVec d)) (filterZ s)\<rparr>]
      in if length rs > 30 then tl rs else rs)"
  by (simp add: onSensorData_def Let_def READING_HISTORY_LIMIT_def feedCurrentModel_frame)

lemma onSensorData_tick:
  "latestTimestamp (onSensorData ext s d) = latestTimestamp s + 1"
  by (simp add: onSensorData_def Let_def READING_HISTORY_LIMIT_def feedCurrentModel_frame)

lemma onSensorData_filters:
  "filterX (onSensorData ext s d) = lowPass (accelX (accVec d)) (filterX s)"
  "filterY (onSensorData ext s d) = lowPass (accelY (accVec d)) (filterY s)"
  "filterZ (onSensorData ext s d) = lowPass (accelZ (accVec d)) (filterZ s)"
  by (simp_all add: onSensorData_def Let_def READING_HISTORY_LIMIT_def feedCurrentModel_frame)

lemma feedAll_tick: "latestTimestamp (feedAll ext s ds) = latestTimestamp s + int (length ds)"
  unfolding feedAll_def by (induction ds arbitrary: s) (simp_all add: onSensorData_tick)

lemma feedAll_readings:
  "length (readings s) \<le> 30 \<Longrightarrow>
   readings (feedAll ext s ds) =
     drop (length (readings s) + length ds - 30)
       (readings s @ conditioned (filterX s) (filterY s) (filterZ s) ds)"
proof (induction ds arbitrary: s)
  case Nil
  then show ?case by (simp add: feedAll_def)
next
  case (Cons d ds)
  let ?c = "\<lparr>accelX = lowPass (accelX (accVec d)) (filterX s),
             accelY = lowPass (accelY (accVec d)) (filterY s),
             accelZ = lowPass (accelZ (accVec d)) (filterZ s)\<rparr>"
  let ?s1 = "onSensorData ext s d"
  have r1: "readings ?s1 = (if length (readings s) = 30 then tl (readings s @ [?c]) else readings s @ [?c])"
    using Cons.prems by (simp add: onSensorData_readings Let_def)
  have l1: "length (readings ?s1) \<le> 30"
    using Cons.prems by (simp add: r1)
  have step: "feedAll ext s (d # ds) = feedAll ext ?s1 ds"
    by (simp add: feedAll_def)
  show ?case
  proof (cases "length (readings s) = 30")
    case True
    then have "readings s \<noteq> []" by auto
    then have tl_eq: "tl (readings s @ [?c]) = tl (readings s) @ [?c]" by simp
    from True have len1: "length (readings ?s1) = 30" by (simp add: r1)
    show ?thesis
      unfolding step Cons.IH[OF l1] onSensorData_filters
      using True \<open>readings s \<noteq> []\<close>
      by (simp add: r1 tl_eq drop_Suc[symmetric] drop_tl[symmetric] del: drop_tl)
  next
    case False
    with Cons.prems have "length (readings s) < 30" by simp
    then show ?thesis
      unfolding step Cons.IH[OF l1] onSensorData_filters
      by (simp add: r1)
  qed
qed

lemma length_conditioned: "length (conditioned px py pz ds) = length ds"
  by (induction ds arbitrary: px py pz) simp_all

text \<open>
  C5. Starting with at most 30 readings in the buffer (the constructor starts with none),
  after any sequence of sensor frames the buffer holds at most 30 readings: the last 30
  of the old buffer followed by the conditioned readings of the frames, oldest first;
  and the tick counter has gone up by the number of frames. More than 30 frames leave
  exactly the conditioned readings of the last 30 frames, in order; 35 frames with the
  tick counter at 0 leave readings 5..34 and the tick counter at 35.
\<close>

theorem readings_window:
  assumes "length (readings s) \<le> 30"
  shows
    "length (readings (feedAll ext s ds)) \<le> 30 \<and>
     readings (feedAll ext s ds) =
       drop (length (readings s) + length ds - 30)
         (readings s @ conditioned (filterX s) (filterY s) (filterZ s) ds) \<and>
     latestTimestamp (feedAll ext s ds) = latestTimestamp s + int (length ds) \<and>
     (length ds > 30 \<longrightarrow>
        length (readings (feedAll ext s ds)) = 30 \<and>
        readings (feedAll ext s ds) =
          drop (length ds - 30) (conditioned (filterX s) (filterY s) (filterZ s) ds)) \<and>
     (latestTimestamp s = 0 \<and> length ds = 35 \<longrightarrow>
        readings (feedAll ext s ds) =
          map (\<lambda>i. conditioned (filterX s) (filterY s) (filterZ s) ds ! i) [5..<35] \<and>
        latestTimestamp (feedAll ext s ds) = 35)"
proof -
  let ?cs = "conditioned (filterX s) (filterY s) (filterZ s) ds"
  have r: "readings (feedAll ext s ds) =
             drop (length (readings s) + length ds - 30) (readings s @ ?cs)"
    by (rule feedAll_readings[OF assms])
  have len: "length (readings (feedAll ext s ds)) \<le> 30"
    using assms by (simp add: r length_conditioned)
  have t: "latestTimestamp (feedAll ext s ds) = latestTimestamp s + int (length ds)"
    by (rule feedAll_tick)
  have many: "length (readings (feedAll ext s ds)) = 30 \<and>
              readings (feedAll ext s ds) = drop (length ds - 30) ?cs"
    if "length ds > 30"
    using that assms by (simp add: r length_conditioned)
  have scen: "readings (feedAll ext s ds) = map (\<lambda>i. ?cs ! i) [5..<35] \<and>
              latestTimestamp (feedAll ext s ds) = 35"
    if z: "latestTimestamp s = 0" and l: "length ds = 35"
  proof -
    have "map (\<lambda>i. ?cs ! i) [5..<35] = drop 5 (map (\<lambda>i. ?cs ! i) [0..<length ?cs])"
      by (simp add: drop_map length_conditioned l)
    also have "\<dots> = drop 5 ?cs" by (simp only: map_nth)
    finally show ?thesis using many z l by (simp add: t)
  qed
  from r len t many scen show ?thesis by blast
qed

theorem readings_window_witness:
  "length (readings demoStore) \<le> 30 \<and>
   length (readings (feedAll demo demoStore demoFrames)) = 30 \<and>
   latestTimestamp (feedAll demo demoStore demoFrames) = 35"
proof -
  have h: "length (readings demoStore) \<le> 30" by (simp add: demoStore_simps)
  have l: "length demoFrames = 35" by (simp add: demoFrames_def)
  note w = readings_window[OF h, of demo demoFrames]
  have t: "latestTimestamp (feedAll demo demoStore demoFrames) = 35"
    using w[THEN conjunct2, THEN conjunct2, THEN conjunct1] l by (simp add: demoStore_simps)
  have n: "length (readings (feedAll demo demoStore demoFrames)) = 30"
    using w[THEN conjunct2, THEN conjunct2, THEN conjunct2, THEN conjunct1] l
    by (simp add: demoStore_simps length_conditioned)
  from h t n show ?thesis by simp
qed

section \<open>markDirty and the debounced flush\<close>

lemma markDirty_clean:
  "\<not> hasBeenModified s \<Longrightarrow> timers s = [] \<Longrightarrow>
   markDirty s =
     s\<lparr>hasBeenModified := True, timeout := Some (nextHandle s),
       timers := [(nextHandle s, clock s + 2000)], nextHandle := nextHandle s + 1\<rparr>"
  by (simp add: markDirty_def saveBlocks_def clearTimeout_def setTimeout_def Let_def
      split: option.splits)

lemma markDirty_dirty: "hasBeenModified s \<Longrightarrow> markDirty s = s"
  by (simp add: markDirty_def)

lemma elapse_before_due:
  "timers s = [(h, due)] \<Longrightarrow> clock s + d < due \<Longrightarrow> elapse ext s d = s\<lparr>clock := clock s + d\<rparr>"
  by (simp add: elapse_def Let_def)

lemma elapse_no_timers:
  "timers s = [] \<Longrightarrow> elapse ext s d = s\<lparr>clock := clock s + d\<rparr>"
  by (simp add: elapse_def Let_def)

lemma elapse_due:
  "timers s = [(h, due)] \<Longrightarrow> due \<le> clock s + d \<Longrightarrow>
   elapse ext s d = saveBlocksNow ext (s\<lparr>clock := clock s + d, timers := [], timeout := None\<rparr>)"
  by (simp add: elapse_def Let_def later_def)

lemma dirtyBurst_dirty:
  "hasBeenModified u \<Longrightarrow> timers u = [(h, due)] \<Longrightarrow> clock u + sum_list ds < due \<Longrightarrow>
   dirtyBurst ext u ds = u\<lparr>clock := clock u + sum_list ds\<rparr>"
proof (induction ds arbitrary: u)
  case Nil
  then show ?case by (simp add: markDirty_dirty)
next
  case (Cons d ds)
  have e: "elapse ext (markDirty u) d = u\<lparr>clock := clock u + d\<rparr>"
    using Cons.prems by (simp add: markDirty_dirty elapse_before_due)
  have "dirtyBurst ext (u\<lparr>clock := clock u + d\<rparr>) ds =
          u\<lparr>clock := clock u + d\<rparr>\<lparr>clock := clock (u\<lparr>clock := clock u + d\<rparr>) + sum_list ds\<rparr>"
    using Cons.prems by (intro Cons.IH) simp_all
  then show ?case by (simp add: e add.assoc)
qed

lemma markDirty_idem: "markDirty (markDirty s) = markDirty s"
  by (simp add: markDirty_dirty markDirty_frame)

lemma dirtyBurst_markDirty: "dirtyBurst ext s ds = dirtyBurst ext (markDirty s) ds"
  by (cases ds) (simp_all add: markDirty_idem)

lemma dirtyBurst_clean:
  assumes "\<not> hasBeenModified s" "timers s = []" "sum_list ds < 2000"
  shows "dirtyBurst ext s ds = (markDirty s)\<lparr>clock := clock s + sum_list ds\<rparr>"
proof -
  have "dirtyBurst ext (markDirty s) ds =
          (markDirty s)\<lparr>clock := clock (markDirty s) + sum_list ds\<rparr>"
    using assms
    by (intro dirtyBurst_dirty[where h = "nextHandle s" and due = "clock s + 2000"])
      (simp_all add: markDirty_clean)
  then show ?thesis using assms by (simp add: dirtyBurst_markDirty[of ext s] markDirty_clean)
qed

lemma saveBlocksNow_dirty:
  "hasBeenModified s \<Longrightarrow>
   drawn (saveBlocksNow ext s) = drawn s + 1 \<and>
   \<not> hasBeenModified (saveBlocksNow ext s) \<and>
   timers (saveBlocksNow ext s) = timers s \<and>
   timeout (saveBlocksNow ext s) = timeout s \<and>
   clock (saveBlocksNow ext s) = clock s \<and>
   idToType (saveBlocksNow ext s) = (idToType s)(randoms s (drawn s) \<mapsto> ''extwritecode'') \<and>
   map action (outbox (saveBlocksNow ext s)) =
     map action (outbox s) @ (if embedded s then [''extwritecode''] else [])"
  by (simp add: saveBlocksNow_def slice_def sendRequest_def Let_def)

lemma saveBlocksNow_clean: "\<not> hasBeenModified s \<Longrightarrow> saveBlocksNow ext s = s"
  by (simp add: saveBlocksNow_def)

text \<open>
  C3, as the code has it. In a store that is not dirty and has no timer pending (as after a flush,
  or at the start), markDirty sets the dirty flag and schedules one flush 2000 ms later.
  Every further markDirty call before that timer fires changes nothing, because the flag
  is already set: the timer is not reset and the first call's timer is the one that
  fires. So N calls, the last of them less than 2000 ms after the first, are followed by
  no flush before 2000 ms after the first call and by exactly one flush then (one write
  request is sent, the flag is cleared, no timer is left); the store is then as before the
  first call: not dirty, no timer pending.
\<close>

theorem markDirty_schedules_once:
  assumes "\<not> hasBeenModified s" and "timers s = []" and "sum_list ds < 2000"
  shows
    "markDirty s =
       s\<lparr>hasBeenModified := True, timeout := Some (nextHandle s),
         timers := [(nextHandle s, clock s + 2000)], nextHandle := nextHandle s + 1\<rparr> \<and>
     dirtyBurst ext s ds = (markDirty s)\<lparr>clock := clock s + sum_list ds\<rparr> \<and>
     (sum_list ds + e < 2000 \<longrightarrow>
        elapse ext (dirtyBurst ext s ds) e = (markDirty s)\<lparr>clock := clock s + sum_list ds + e\<rparr>) \<and>
     (2000 \<le> sum_list ds + e \<longrightarrow>
        elapse ext (dirtyBurst ext s ds) e =
          saveBlocksNow ext
            ((markDirty s)\<lparr>clock := clock s + sum_list ds + e, timers := [], timeout := None\<rparr>) \<and>
        drawn (elapse ext (dirtyBurst ext s ds) e) = drawn s + 1 \<and>
        map action (outbox (elapse ext (dirtyBurst ext s ds) e)) =
          map action (outbox s) @ (if embedded s then [''extwritecode''] else []) \<and>
        \<not> hasBeenModified (elapse ext (dirtyBurst ext s ds) e) \<and>
        timers (elapse ext (dirtyBurst ext s ds) e) = [])"
proof -
  let ?u = "markDirty s"
  have m: "?u = s\<lparr>hasBeenModified := True, timeout := Some (nextHandle s),
                   timers := [(nextHandle s, clock s + 2000)], nextHandle := nextHandle s + 1\<rparr>"
    using assms by (simp add: markDirty_clean)
  have b: "dirtyBurst ext s ds = ?u\<lparr>clock := clock s + sum_list ds\<rparr>"
    using assms by (rule dirtyBurst_clean)
  have tm: "timers (?u\<lparr>clock := clock s + sum_list ds\<rparr>) = [(nextHandle s, clock s + 2000)]"
    and ck: "clock (?u\<lparr>clock := clock s + sum_list ds\<rparr>) = clock s + sum_list ds"
    by (simp_all add: m)
  have early: "elapse ext (dirtyBurst ext s ds) e = ?u\<lparr>clock := clock s + sum_list ds + e\<rparr>"
    if "sum_list ds + e < 2000"
    unfolding b using that by (subst elapse_before_due[OF tm]) (simp_all add: ck)
  have fl: "elapse ext (dirtyBurst ext s ds) e =
          saveBlocksNow ext
            (?u\<lparr>clock := clock s + sum_list ds + e, timers := [], timeout := None\<rparr>)"
    if "2000 \<le> sum_list ds + e"
    unfolding b using that by (subst elapse_due[OF tm]) (simp_all add: ck)
  have d: "hasBeenModified (?u\<lparr>clock := clock s + sum_list ds + e, timers := [], timeout := None\<rparr>)"
    by (simp add: m)
  note sb = saveBlocksNow_dirty[OF d, of ext]
  have late: "drawn (elapse ext (dirtyBurst ext s ds) e) = drawn s + 1 \<and>
        map action (outbox (elapse ext (dirtyBurst ext s ds) e)) =
          map action (outbox s) @ (if embedded s then [''extwritecode''] else []) \<and>
        \<not> hasBeenModified (elapse ext (dirtyBurst ext s ds) e) \<and>
        timers (elapse ext (dirtyBurst ext s ds) e) = []"
    if "2000 \<le> sum_list ds + e"
    unfolding fl[OF that] using sb by (simp add: m)
  from m b early fl late show ?thesis by blast
qed

theorem markDirty_schedules_once_witness:
  "\<not> hasBeenModified demoStore \<and> timers demoStore = [] \<and> sum_list [500, 1000] < (2000::nat) \<and>
   timers (dirtyBurst demo demoStore [500, 1000]) = [(0, 2000)] \<and>
   clock (dirtyBurst demo demoStore [500, 1000]) = 1500 \<and>
   hasBeenModified (elapse demo (dirtyBurst demo demoStore [500, 1000]) 499) \<and>
   \<not> hasBeenModified (elapse demo (dirtyBurst demo demoStore [500, 1000]) 500) \<and>
   drawn (elapse demo (dirtyBurst demo demoStore [500, 1000]) 500) = drawn demoStore + 1"
proof -
  have h1: "\<not> hasBeenModified demoStore" and h2: "timers demoStore = []"
    and h3: "sum_list [500, 1000] < (2000::nat)"
    by (simp_all add: demoStore_simps)
  have p1: "sum_list [500, 1000] + 499 < (2000::nat)"
    and p2: "(2000::nat) \<le> sum_list [500, 1000] + 500" by simp_all
  note w1 = markDirty_schedules_once[OF h1 h2 h3, of demo 499]
  note w2 = markDirty_schedules_once[OF h1 h2 h3, of demo 500]
  note m = w1[THEN conjunct1]
  note b = w1[THEN conjunct2, THEN conjunct1]
  note e1 = w1[THEN conjunct2, THEN conjunct2, THEN conjunct1, THEN mp, OF p1]
  note e2 = w2[THEN conjunct2, THEN conjunct2, THEN conjunct2, THEN mp, OF p2]
  have t: "timers (dirtyBurst demo demoStore [500, 1000]) = [(0, 2000)]"
    and c: "clock (dirtyBurst demo demoStore [500, 1000]) = 1500"
    unfolding b m by (simp_all add: demoStore_simps)
  have d: "hasBeenModified (elapse demo (dirtyBurst demo demoStore [500, 1000]) 499)"
    unfolding e1 m by simp
  from e2 have f: "\<not> hasBeenModified (elapse demo (dirtyBurst demo demoStore [500, 1000]) 500)"
    and g: "drawn (elapse demo (dirtyBurst demo demoStore [500, 1000]) 500) = drawn demoStore + 1"
    by blast+
  from h1 h2 h3 t c d f g show ?thesis by blast
qed

theorem markDirty_resets_timer_counterexample:
  "timers (markDirty (elapse demo (markDirty demoStore) 1500)) = [(0, 2000)] \<and>
   timers (markDirty (elapse demo (markDirty demoStore) 1500)) \<noteq> [(1, 3500)] \<and>
   \<not> hasBeenModified (elapse demo (markDirty (elapse demo (markDirty demoStore) 1500)) 500) \<and>
   drawn (elapse demo (dirtyBurst demo demoStore [1500, 1500]) 2000) = drawn demoStore + 2"
proof -
  have h1: "\<not> hasBeenModified demoStore" and h2: "timers demoStore = []"
    by (simp_all add: demoStore_simps)
  define a0 where "a0 = markDirty demoStore"
  have a0: "hasBeenModified a0" "timers a0 = [(0, 2000)]" "clock a0 = 0" "drawn a0 = drawn demoStore"
    unfolding a0_def by (simp_all add: markDirty_clean[OF h1 h2] demoStore_simps)
  define b0 where "b0 = elapse demo a0 1500"
  have "b0 = a0\<lparr>clock := clock a0 + 1500\<rparr>"
    unfolding b0_def by (rule elapse_before_due[OF a0(2)]) (simp add: a0)
  then have b0: "hasBeenModified b0" "timers b0 = [(0, 2000)]" "clock b0 = 1500"
    "drawn b0 = drawn demoStore"
    by (simp_all add: a0)
  define a1 where "a1 = markDirty b0"
  have "a1 = b0" unfolding a1_def by (rule markDirty_dirty[OF b0(1)])
  then have a1: "hasBeenModified a1" "timers a1 = [(0, 2000)]" "clock a1 = 1500"
    "drawn a1 = drawn demoStore"
    by (simp_all add: b0)
  \<comment> \<open>500 ms after the second call the first call's timer fires\<close>
  have f: "elapse demo a1 500 =
             saveBlocksNow demo (a1\<lparr>clock := clock a1 + 500, timers := [], timeout := None\<rparr>)"
    by (rule elapse_due[OF a1(2)]) (simp add: a1)
  have f': "\<not> hasBeenModified (elapse demo a1 500)"
    unfolding f by (rule saveBlocksNow_dirty[THEN conjunct2, THEN conjunct1]) (simp add: a1)
  \<comment> \<open>a third call 1500 ms after the second: the flush has fired in between\<close>
  define b1 where "b1 = elapse demo a1 1500"
  have b1_eq: "b1 =
      saveBlocksNow demo (a1\<lparr>clock := clock a1 + 1500, timers := [], timeout := None\<rparr>)"
    unfolding b1_def by (rule elapse_due[OF a1(2)]) (simp add: a1)
  have d1: "hasBeenModified (a1\<lparr>clock := clock a1 + 1500, timers := [], timeout := None\<rparr>)"
    by (simp add: a1)
  have b1: "\<not> hasBeenModified b1" "timers b1 = []" "drawn b1 = drawn demoStore + 1"
    using saveBlocksNow_dirty[OF d1, of demo] unfolding b1_eq by (simp_all add: a1)
  define a2 where "a2 = markDirty b1"
  have a2_eq: "a2 = b1\<lparr>hasBeenModified := True, timeout := Some (nextHandle b1),
         timers := [(nextHandle b1, clock b1 + 2000)], nextHandle := nextHandle b1 + 1\<rparr>"
    unfolding a2_def by (rule markDirty_clean[OF b1(1) b1(2)])
  have a2t: "timers a2 = [(nextHandle b1, clock b1 + 2000)]" by (simp add: a2_eq)
  have b2_eq: "elapse demo a2 2000 =
      saveBlocksNow demo (a2\<lparr>clock := clock a2 + 2000, timers := [], timeout := None\<rparr>)"
    by (rule elapse_due[OF a2t]) (simp add: a2_eq)
  have d2: "hasBeenModified (a2\<lparr>clock := clock a2 + 2000, timers := [], timeout := None\<rparr>)"
    by (simp add: a2_eq)
  have two: "drawn (elapse demo a2 2000) = drawn demoStore + 2"
    using saveBlocksNow_dirty[OF d2, of demo] unfolding b2_eq by (simp add: a2_eq b1)
  have burst: "dirtyBurst demo demoStore [1500, 1500] = a2"
    unfolding a2_def b1_def a1_def b0_def a0_def by simp
  from a1(2) f' two show ?thesis
    unfolding burst unfolding a1_def b0_def a0_def by simp
qed

section \<open>Which operations copy the gesture array\<close>









text \<open>
  The published array is an allocated one: in the store the constructor builds, and after
  every operation that assigns \<open>this.gestures\<close> or allocates an array.
\<close>

lemma published_array_allocated:
  assumes "gestures s < nextArray s"
  shows "gestures (addGesture ext s gv) < nextArray (addGesture ext s gv)"
    and "gestures (deleteGesture s g) < nextArray (deleteGesture s g)"
    and "gestures (post (deleteIfGestureEmpty s)) < nextArray (post (deleteIfGestureEmpty s))"
    and "gestures (post (addSample ext s g x)) < nextArray (post (addSample ext s g x))"
    and "gestures (post (deleteSample ext s g x)) < nextArray (post (deleteSample ext s g x))"
    and "gestures (saveBlocksNow ext s) < nextArray (saveBlocksNow ext s)"
  using assms
  by (simp_all add: addGesture_def deleteGesture_def deleteIfGestureEmpty_def addSample_def
      trainCurrentModel_def deleteSample_def saveBlocksNow_def sendRequest_def slice_def Let_def markDirty_frame
      case_prod_beta currentModel_snd currentModel_fst split: option.splits computed.splits)

lemma published_array_allocated_loadBlocks:
  assumes "gestures s < nextArray s"
  shows "gestures (post (loadBlocks ext s code json)) < nextArray (post (loadBlocks ext s code json))"
proof (cases json)
  case None
  then show ?thesis using assms by (simp add: loadBlocks_def)
next
  case (Some j)
  show ?thesis
  proof (cases "JSON_parse ext j")
    case (JArray rs)
    show ?thesis
    proof (cases "parseAll (parseGesture ext) rs")
      case (Inl e)
      with Some JArray assms show ?thesis by (simp add: loadBlocks_def)
    next
      case (Inr gs)
      show ?thesis
      proof (cases "j = []")
        case True
        with Some assms show ?thesis by (simp add: loadBlocks_def)
      next
        case False
        obtain rs0 s0 where r: "newObjects s gs = (rs0, s0)" by (cases "newObjects s gs")
        obtain cs s4 where c: "newCores
           (s0\<lparr>arrays := (arrays s0)(nextArray s0 := rs0), nextArray := Suc (nextArray s0),
               gestures := nextArray s0\<rparr>)
           (map (\<lambda>gesture. update ext (newCore ext (gestureID gesture + 1) (name gesture))
                   (getCroppedData ext gesture) (latestTimestamp s0))
              (gestureList
                 (s0\<lparr>arrays := (arrays s0)(nextArray s0 := rs0), nextArray := Suc (nextArray s0),
                     gestures := nextArray s0\<rparr>))) = (cs, s4)"
          by (meson surj_pair)
        show ?thesis
          unfolding Some loadBlocks_array[OF False JArray Inr r c]
          using newCores_frame[OF c] by simp
      qed
    qed
  qed (use Some assms in \<open>simp_all add: loadBlocks_def\<close>)
qed

lemma published_array_allocated_constructor:
  "gestures (constructor rnd emb hash) < nextArray (constructor rnd emb hash)"
  by (simp add: constructor_def newStore_def sendRequest_def Let_def)


lemma demoOne_simps:
  "catalog demoOne = [0]" "arrays demoOne 0 = [0]" "gestures demoOne = 0" "nextArray demoOne = 1"
  "nextObject demoOne = 1" "curGestureIndex demoOne = 0" "gestureAt demoOne 0 = demoGesture"
  "models demoOne = [0]"
  "matcherList demoOne = [\<lparr>classNumber = 2, coreName = ''shake'', trainedOn = None\<rparr>]"
  "coreAt demoOne 0 = \<lparr>classNumber = 2, coreName = ''shake'', trainedOn = None\<rparr>"
  "nextCore demoOne = 1" "currentModelCache demoOne = Uncached"
  "hasBeenModified demoOne = False" "latestTimestamp demoOne = 0" "timers demoOne = []"
  by (simp_all add: demoOne_def addGesture_def Let_def catalog_def demoStore_simps demo_def
      demoGesture_def gestureAt_def matcherList_def coreAt_def)



section \<open>addGesture\<close>

lemma addGesture_effect:
  "catalog (addGesture ext s g) = catalog s @ [nextObject s]"
  "objects (addGesture ext s g) = (objects s)(nextObject s \<mapsto> g)"
  "models (addGesture ext s g) = models s @ [nextCore s]"
  "cores (addGesture ext s g) = (cores s)(nextCore s \<mapsto> newCore ext (gestureID g + 1) (name g))"
  "curGestureIndex (addGesture ext s g) = int (length (catalog s))"
  "nextObject (addGesture ext s g) = nextObject s + 1"
  "nextCore (addGesture ext s g) = nextCore s + 1"
  "gestures (addGesture ext s g) = gestures s" "nextArray (addGesture ext s g) = nextArray s"
  "currentModelCache (addGesture ext s g) = currentModelCache s"
  "hasBeenModified (addGesture ext s g) = hasBeenModified s"
  "latestTimestamp (addGesture ext s g) = latestTimestamp s"
  "timers (addGesture ext s g) = timers s"
  by (simp_all add: addGesture_def Let_def catalog_def gestureAt_def)



lemma demoTwo_simps:
  "catalog demoTwo = [0, 1]" "gestures demoTwo = 0" "nextArray demoTwo = 1"
  "curGestureIndex demoTwo = 1" "models demoTwo = [0, 1]"
  "gestureAt demoTwo 0 = demoGesture"
  "gestureAt demoTwo 1 = \<lparr>gestureID = 2, name = ''tilt'', samples = [], displayGesture = 0\<rparr>"
  "coreAt demoTwo 0 = \<lparr>classNumber = 2, coreName = ''shake'', trainedOn = None\<rparr>"
  "coreAt demoTwo 1 = \<lparr>classNumber = 3, coreName = ''tilt'', trainedOn = None\<rparr>"
  "currentModelCache demoTwo = Uncached" "latestTimestamp demoTwo = 0"
  "hasBeenModified demoTwo = False" "timers demoTwo = []"
  using demoOne_simps(7,10)
  by (simp_all add: demoTwo_def addGesture_effect demoOne_simps gestureAt_def coreAt_def demo_def)



section \<open>addSample\<close>

lemma trainCurrentModel_none:
  "fst (currentModel s) = None \<Longrightarrow>
   trainCurrentModel ext s r cd = Throw TypeError (snd (currentModel s))"
  by (simp add: trainCurrentModel_def case_prod_beta)

lemma trainCurrentModel_some:
  fixes s :: "('s, 'm) GestureStore" and ext :: "('s, 'm, 'd, 'r) collaborators"
  assumes "fst (currentModel s) = Some c"
  shows "\<exists>s'. trainCurrentModel ext s r cd = Normal s' \<and>
     cores s' = (cores s)(c \<mapsto>
        update ext (coreAt s c) (getCroppedData ext (gestureAt s r)) (latestTimestamp s)) \<and>
     objects s' = (objects s)(r \<mapsto> (gestureAt s r)
        \<lparr>displayGesture := prototype ext
           (update ext (coreAt s c) (getCroppedData ext (gestureAt s r)) (latestTimestamp s))\<rparr>) \<and>
     gestures s' = cd \<and> arrays s' = arrays s \<and> nextArray s' = nextArray s \<and>
     models s' = models s \<and> curGestureIndex s' = curGestureIndex s \<and> hasBeenModified s' \<and>
     latestTimestamp s' = latestTimestamp s \<and>
     currentModelCache s' = currentModelCache (snd (currentModel s))"
proof -
  define s1 where "s1 = snd (currentModel s)"
  have r1: "currentModel s = (Some c, s1)"
    using assms by (simp add: s1_def prod_eq_iff)
  have f: "cores s1 = cores s" "objects s1 = objects s" "latestTimestamp s1 = latestTimestamp s"
    "arrays s1 = arrays s" "nextArray s1 = nextArray s" "models s1 = models s"
    "curGestureIndex s1 = curGestureIndex s"
    by (simp_all add: s1_def currentModel_snd)
  define m where
    "m = update ext (coreAt s1 c) (getCroppedData ext (gestureAt s1 r)) (latestTimestamp s1)"
  have m: "m = update ext (coreAt s c) (getCroppedData ext (gestureAt s r)) (latestTimestamp s)"
    by (simp add: m_def gestureAt_def coreAt_def f)
  define s2 where "s2 = s1\<lparr>cores := (cores s1)(c \<mapsto> m)\<rparr>"
  have "fst (currentModel s2) = Some c"
    unfolding s2_def s1_def using assms by (simp add: currentModel_again)
  moreover have "snd (currentModel s2) = s2"
    unfolding s2_def s1_def
    by (cases "currentModelCache s") (simp_all add: currentModel_def Let_def)
  ultimately have r2: "currentModel s2 = (Some c, s2)" by (simp add: prod_eq_iff)
  define s5 where "s5 = s2\<lparr>objects := (objects s2)
       (r \<mapsto> (gestureAt s2 r)\<lparr>displayGesture := prototype ext (coreAt s2 c)\<rparr>)\<rparr>
       \<lparr>gestures := cd\<rparr>"
  have t: "trainCurrentModel ext s r cd = Normal (markDirty s5)"
    unfolding trainCurrentModel_def r1
    by (simp only: prod.case option.case Let_def r2[unfolded s2_def m_def] s5_def s2_def m_def)
  have c2: "coreAt s2 c = m" "gestureAt s2 r = gestureAt s r"
    by (simp_all add: s2_def coreAt_def gestureAt_def f)
  have "cores (markDirty s5) = (cores s)(c \<mapsto> m)"
    "objects (markDirty s5) = (objects s)(r \<mapsto> (gestureAt s r)\<lparr>displayGesture := prototype ext m\<rparr>)"
    "gestures (markDirty s5) = cd" "arrays (markDirty s5) = arrays s"
    "nextArray (markDirty s5) = nextArray s" "models (markDirty s5) = models s"
    "curGestureIndex (markDirty s5) = curGestureIndex s" "hasBeenModified (markDirty s5)"
    "latestTimestamp (markDirty s5) = latestTimestamp s"
    "currentModelCache (markDirty s5) = currentModelCache s1"
    by (simp_all add: markDirty_frame s5_def c2) (simp_all add: s2_def f)
  with t show ?thesis unfolding m s1_def by blast
qed

text \<open>What a read of the getter gives depends on the matcher array, the current index and
  what mobx holds for the getter, and a read leaves a store on which the next read gives
  the same.\<close>

lemma currentModel_fst_cong:
  assumes "models s' = models s" and "curGestureIndex s' = curGestureIndex s"
    and "currentModelCache s' = currentModelCache s \<or>
         currentModelCache s' = currentModelCache (snd (currentModel s))"
  shows "fst (currentModel s') = fst (currentModel s)"
  using assms
  by (cases "currentModelCache s")
     (auto simp: currentModel_fst currentModel_snd split: computed.splits)

lemma addSample_found:
  assumes "g \<in> set (catalog s)"
  shows "addSample ext s g a = trainCurrentModel ext (unshifted s g a) g (nextArray s)"
proof -
  have i: "js_get (catalog s) (indexOf (catalog s) g) = Some g"
    using assms by (rule js_get_indexOf)
  show ?thesis
    using i
    by (simp add: addSample_def slice_def Let_def catalog_def gestureAt_def unshifted_def)
qed

lemma unshifted_frame:
  "cores (unshifted s g a) = cores s" "models (unshifted s g a) = models s"
  "curGestureIndex (unshifted s g a) = curGestureIndex s"
  "currentModelCache (unshifted s g a) = currentModelCache s"
  "gestures (unshifted s g a) = gestures s" "hasBeenModified (unshifted s g a) = hasBeenModified s"
  "timers (unshifted s g a) = timers s" "latestTimestamp (unshifted s g a) = latestTimestamp s"
  "arrays (unshifted s g a) = (arrays s)(nextArray s := catalog s)"
  "objects (unshifted s g a) =
     (objects s)(g \<mapsto> (gestureAt s g)\<lparr>samples := a # samples (gestureAt s g)\<rparr>)"
  "gestureAt (unshifted s g a) g = (gestureAt s g)\<lparr>samples := a # samples (gestureAt s g)\<rparr>"
  "coreAt (unshifted s g a) = coreAt s"
  "catalog (unshifted s g a) = catalog s"
  by (simp_all add: unshifted_def gestureAt_def coreAt_def catalog_def fun_eq_iff)

lemma unshifted_getter: "fst (currentModel (unshifted s g a)) = fst (currentModel s)"
  by (rule currentModel_fst_cong) (simp_all add: unshifted_frame)

lemma addSample_throws:
  assumes g: "g \<in> set (catalog s)" and n: "fst (currentModel s) = None"
  shows "\<exists>s'. addSample ext s g a = Throw TypeError s' \<and>
     samples (gestureAt s' g) = a # samples (gestureAt s g) \<and>
     displayGesture (gestureAt s' g) = displayGesture (gestureAt s g) \<and>
     cores s' = cores s \<and> models s' = models s \<and> gestures s' = gestures s \<and>
     catalog s' = catalog s \<and> hasBeenModified s' = hasBeenModified s \<and> timers s' = timers s"
proof -
  define u where "u = unshifted s g a"
  have n': "fst (currentModel u) = None" using n by (simp add: u_def unshifted_getter)
  have t: "addSample ext s g a = Throw TypeError (snd (currentModel u))"
    unfolding addSample_found[OF g] u_def[symmetric] using n' by (rule trainCurrentModel_none)
  have "samples (gestureAt (snd (currentModel u)) g) = a # samples (gestureAt s g)"
    "displayGesture (gestureAt (snd (currentModel u)) g) = displayGesture (gestureAt s g)"
    "cores (snd (currentModel u)) = cores s" "models (snd (currentModel u)) = models s"
    "gestures (snd (currentModel u)) = gestures s" "catalog (snd (currentModel u)) = catalog s"
    "hasBeenModified (snd (currentModel u)) = hasBeenModified s"
    "timers (snd (currentModel u)) = timers s"
    using unshifted_frame(11,13)[of s g a]
    by (simp_all add: currentModel_snd gestureAt_def catalog_def u_def unshifted_frame)
  with t show ?thesis by blast
qed

lemma addSample_trains:
  fixes s :: "('s, 'm) GestureStore" and ext :: "('s, 'm, 'd, 'r) collaborators"
  assumes g: "g \<in> set (catalog s)" and c: "fst (currentModel s) = Some c"
  shows "\<exists>s'. addSample ext s g a = Normal s' \<and>
     samples (gestureAt s' g) = a # samples (gestureAt s g) \<and>
     cores s' = (cores s)(c \<mapsto> update ext (coreAt s c)
        (getCroppedData ext ((gestureAt s g)\<lparr>samples := a # samples (gestureAt s g)\<rparr>))
        (latestTimestamp s)) \<and>
     models s' = models s \<and>
     displayGesture (gestureAt s' g) = prototype ext (coreAt s' c) \<and>
     catalog s' = catalog s \<and> gestures s' = nextArray s \<and> hasBeenModified s' \<and>
     curGestureIndex s' = curGestureIndex s \<and>
     fst (currentModel s') = Some c"
proof -
  define u where "u = unshifted s g a"
  have c': "fst (currentModel u) = Some c" using c by (simp add: u_def unshifted_getter)
  from trainCurrentModel_some[OF c', of ext g "nextArray s"]
  obtain s' where t: "trainCurrentModel ext u g (nextArray s) = Normal s'"
    and co: "cores s' = (cores u)(c \<mapsto>
        update ext (coreAt u c) (getCroppedData ext (gestureAt u g)) (latestTimestamp u))"
    and ob: "objects s' = (objects u)(g \<mapsto> (gestureAt u g)
        \<lparr>displayGesture := prototype ext
           (update ext (coreAt u c) (getCroppedData ext (gestureAt u g)) (latestTimestamp u))\<rparr>)"
    and rest: "gestures s' = nextArray s" "arrays s' = arrays u" "models s' = models u"
      "curGestureIndex s' = curGestureIndex u" "hasBeenModified s'"
      "currentModelCache s' = currentModelCache (snd (currentModel u))"
    by blast
  have a: "addSample ext s g a = Normal s'"
    unfolding addSample_found[OF g] u_def[symmetric] by (rule t)
  have "fst (currentModel s') = fst (currentModel u)"
    by (rule currentModel_fst_cong) (simp_all add: rest)
  then have gt: "fst (currentModel s') = Some c" by (simp add: c')
  have "samples (gestureAt s' g) = a # samples (gestureAt s g)"
    "cores s' = (cores s)(c \<mapsto> update ext (coreAt s c)
        (getCroppedData ext ((gestureAt s g)\<lparr>samples := a # samples (gestureAt s g)\<rparr>))
        (latestTimestamp s))"
    "models s' = models s"
    "displayGesture (gestureAt s' g) = prototype ext (coreAt s' c)"
    "catalog s' = catalog s" "curGestureIndex s' = curGestureIndex s"
    by (simp_all add: gestureAt_def[of s'] coreAt_def[of s'] catalog_def[of s'] ob co rest
        u_def unshifted_frame)
  with a rest(1,5) gt show ?thesis by blast
qed

lemma addSample_post:
  assumes g: "g \<in> set (catalog s)"
  shows "samples (gestureAt (post (addSample ext s g a)) g) = a # samples (gestureAt s g) \<and>
     catalog (post (addSample ext s g a)) = catalog s"
proof (cases "fst (currentModel s)")
  case None
  from addSample_throws[OF g None, of ext a] show ?thesis by auto
next
  case (Some c)
  from addSample_trains[OF g Some, of ext a] show ?thesis by auto
qed

text \<open>
  What addSample does, for a gesture of the catalog. It puts the new sample at the front
  of the gesture's sample list, whatever happens next, and a second addSample puts its
  sample in front of the first. Then it reads the getter currentModel. When the read
  gives a matcher, that matcher is updated with the edited gesture's cropped data and the
  current tick and no other matcher changes, the gesture's displayGesture becomes the
  prototype of the updated matcher, a new array with the same gestures is published, the
  store is dirty, and the getter still gives that matcher. When the read gives undefined,
  the call throws a TypeError after the insertion: no matcher is updated, displayGesture
  is as it was, nothing is published and no save is scheduled. The read gives the matcher
  at curGestureIndex when mobx holds no value for the getter, and the value mobx holds
  otherwise.
\<close>

theorem addSample_front_insert:
  fixes s :: "('s, 'm) GestureStore" and ext :: "('s, 'm, 'd, 'r) collaborators"
  assumes "g \<in> set (catalog s)"
  shows
    "samples (gestureAt (post (addSample ext s g a)) g) = a # samples (gestureAt s g) \<and>
     samples (gestureAt (post (addSample ext (post (addSample ext s g a)) g b)) g) =
       b # a # samples (gestureAt s g) \<and>
     (\<forall>c. fst (currentModel s) = Some c \<longrightarrow>
        (\<exists>s'. addSample ext s g a = Normal s' \<and>
           cores s' = (cores s)(c \<mapsto> update ext (coreAt s c)
              (getCroppedData ext ((gestureAt s g)\<lparr>samples := a # samples (gestureAt s g)\<rparr>))
              (latestTimestamp s)) \<and>
           models s' = models s \<and>
           displayGesture (gestureAt s' g) = prototype ext (coreAt s' c) \<and>
           catalog s' = catalog s \<and> gestures s' = nextArray s \<and> hasBeenModified s' \<and>
           fst (currentModel s') = Some c)) \<and>
     (fst (currentModel s) = None \<longrightarrow>
        (\<exists>s'. addSample ext s g a = Throw TypeError s' \<and>
           cores s' = cores s \<and> models s' = models s \<and>
           displayGesture (gestureAt s' g) = displayGesture (gestureAt s g) \<and>
           gestures s' = gestures s \<and> catalog s' = catalog s \<and>
           hasBeenModified s' = hasBeenModified s \<and> timers s' = timers s)) \<and>
     (currentModelCache s \<in> {Uncached, Pending} \<longrightarrow>
        fst (currentModel s) = js_get (models s) (curGestureIndex s)) \<and>
     (\<forall>v. currentModelCache s = Cached v \<longrightarrow> fst (currentModel s) = v)"
proof -
  note p = addSample_post[OF assms, of ext a]
  have g': "g \<in> set (catalog (post (addSample ext s g a)))"
    using assms p by simp
  have 1: "samples (gestureAt (post (addSample ext s g a)) g) = a # samples (gestureAt s g)"
    using p by simp
  have 2: "samples (gestureAt (post (addSample ext (post (addSample ext s g a)) g b)) g) =
       b # a # samples (gestureAt s g)"
    using addSample_post[OF g', of ext b] p by simp
  have 3: "\<exists>s'. addSample ext s g a = Normal s' \<and>
           cores s' = (cores s)(c \<mapsto> update ext (coreAt s c)
              (getCroppedData ext ((gestureAt s g)\<lparr>samples := a # samples (gestureAt s g)\<rparr>))
              (latestTimestamp s)) \<and>
           models s' = models s \<and>
           displayGesture (gestureAt s' g) = prototype ext (coreAt s' c) \<and>
           catalog s' = catalog s \<and> gestures s' = nextArray s \<and> hasBeenModified s' \<and>
           fst (currentModel s') = Some c" if "fst (currentModel s) = Some c" for c
    using addSample_trains[OF assms that, of ext a] by blast
  have 4: "\<exists>s'. addSample ext s g a = Throw TypeError s' \<and>
           cores s' = cores s \<and> models s' = models s \<and>
           displayGesture (gestureAt s' g) = displayGesture (gestureAt s g) \<and>
           gestures s' = gestures s \<and> catalog s' = catalog s \<and>
           hasBeenModified s' = hasBeenModified s \<and> timers s' = timers s"
    if "fst (currentModel s) = None"
    using addSample_throws[OF assms that, of ext a] by blast
  have 5: "fst (currentModel s) = js_get (models s) (curGestureIndex s)"
    if "currentModelCache s \<in> {Uncached, Pending}"
    using that by (auto simp: currentModel_fst)
  have 6: "fst (currentModel s) = v" if "currentModelCache s = Cached v" for v
    using that by (simp add: currentModel_fst)
  from 1 2 3 4 5 6 show ?thesis by blast
qed

lemma demoDeleted_simps:
  "catalog demoDeleted = [0]" "models demoDeleted = [0]" "curGestureIndex demoDeleted = 1"
  "currentModelCache demoDeleted = Uncached" "gestureAt demoDeleted 0 = demoGesture"
  "coreAt demoDeleted 0 = \<lparr>classNumber = 2, coreName = ''shake'', trainedOn = None\<rparr>"
  "gestures demoDeleted = 0" "cores demoDeleted = cores demoTwo"
  using demoTwo_simps(1,6,8)
  by (simp_all add: demoDeleted_def deleteGesture_def Let_def indexOf_def findIndex_def
      splice1_def catalog_def gestureAt_def coreAt_def markDirty_frame demoTwo_simps)

lemma demoOne_observed:
  "catalog (mobxObserve demoOne) = [0]" "models (mobxObserve demoOne) = [0]"
  "nextObject (mobxObserve demoOne) = 1" "nextCore (mobxObserve demoOne) = 1"
  "objects (mobxObserve demoOne) = objects demoOne" "cores (mobxObserve demoOne) = cores demoOne"
  "currentModelCache (mobxObserve demoOne) = Cached (Some 0)"
  "latestTimestamp (mobxObserve demoOne) = 0"
  using demoOne_simps(1)
  by (simp_all add: mobxObserve_def mobxTrack_def currentModel_snd catalog_def demoOne_simps
      js_get_def)

lemma demoObserved_simps:
  "catalog demoObserved = [0, 1]" "models demoObserved = [0, 1]"
  "curGestureIndex demoObserved = 1" "currentModelCache demoObserved = Cached (Some 0)"
  "gestureAt demoObserved 1 =
     \<lparr>gestureID = 2, name = ''tilt'', samples = [], displayGesture = 0\<rparr>"
  "coreAt demoObserved 0 = \<lparr>classNumber = 2, coreName = ''shake'', trainedOn = None\<rparr>"
  "coreAt demoObserved 1 = \<lparr>classNumber = 3, coreName = ''tilt'', trainedOn = None\<rparr>"
  "latestTimestamp demoObserved = 0"
  using demoOne_simps(10)
  by (simp_all add: demoObserved_def addGesture_effect demoOne_observed gestureAt_def coreAt_def
      demo_def)

theorem addSample_front_insert_witness:
  "(0::nat) \<in> set (catalog demoTwo) \<and> fst (currentModel demoTwo) = Some 1 \<and>
   samples (gestureAt (post (addSample demo demoTwo 0 5)) 0) = [5] \<and>
   samples (gestureAt (post (addSample demo (post (addSample demo demoTwo 0 5)) 0 6)) 0) = [6, 5] \<and>
   thrown (addSample demo demoTwo 0 5) = None \<and>
   coreAt (post (addSample demo demoTwo 0 5)) 0 =
     \<lparr>classNumber = 2, coreName = ''shake'', trainedOn = None\<rparr> \<and>
   coreAt (post (addSample demo demoTwo 0 5)) 1 =
     \<lparr>classNumber = 3, coreName = ''tilt'', trainedOn = Some ([5], 0)\<rparr> \<and>
   displayGesture (gestureAt (post (addSample demo demoTwo 0 5)) 0) = 1 \<and>
   gestures (post (addSample demo demoTwo 0 5)) = 1 \<and>
   catalog (post (addSample demo demoTwo 0 5)) = [0, 1] \<and>
   (0::nat) \<in> set (catalog demoDeleted) \<and> fst (currentModel demoDeleted) = None \<and>
   thrown (addSample demo demoDeleted 0 5) = Some TypeError \<and>
   samples (gestureAt (post (addSample demo demoDeleted 0 5)) 0) = [5] \<and>
   gestures (post (addSample demo demoDeleted 0 5)) = gestures demoDeleted"
proof -
  have h: "(0::nat) \<in> set (catalog demoTwo)" by (simp add: demoTwo_simps)
  have un: "currentModelCache demoTwo \<in> {Uncached, Pending}" by (simp add: demoTwo_simps)
  note w = addSample_front_insert[OF h, of demo 5 6]
  have c: "fst (currentModel demoTwo) = Some 1"
    using w[THEN conjunct2, THEN conjunct2, THEN conjunct2, THEN conjunct2, THEN conjunct1,
        THEN mp, OF un]
    by (simp add: demoTwo_simps js_get_def)
  have a: "samples (gestureAt (post (addSample demo demoTwo 0 5)) 0) = [5]"
    using w[THEN conjunct1] by (simp add: demoTwo_simps demoGesture_def)
  have b: "samples (gestureAt (post (addSample demo (post (addSample demo demoTwo 0 5)) 0 6)) 0) =
      [6, 5]"
    using w[THEN conjunct2, THEN conjunct1] by (simp add: demoTwo_simps demoGesture_def)
  from w[THEN conjunct2, THEN conjunct2, THEN conjunct1, rule_format, OF c]
  obtain s' where n: "addSample demo demoTwo 0 5 = Normal s'"
    and co: "cores s' = (cores demoTwo)(1 \<mapsto> update demo (coreAt demoTwo 1)
              (getCroppedData demo
                ((gestureAt demoTwo 0)\<lparr>samples := 5 # samples (gestureAt demoTwo 0)\<rparr>))
              (latestTimestamp demoTwo))"
    and dg: "displayGesture (gestureAt s' 0) = prototype demo (coreAt s' 1)"
    and ca: "catalog s' = catalog demoTwo" and ge: "gestures s' = nextArray demoTwo"
    by blast
  have c0: "coreAt s' 0 = \<lparr>classNumber = 2, coreName = ''shake'', trainedOn = None\<rparr>"
    using demoTwo_simps(8) by (simp add: coreAt_def co)
  have c1: "coreAt s' 1 = \<lparr>classNumber = 3, coreName = ''tilt'', trainedOn = Some ([5], 0)\<rparr>"
    using demoTwo_simps(9)
    by (simp add: coreAt_def[of s'] co demoTwo_simps(6,11) demoGesture_def demo_def)
  have d: "displayGesture (gestureAt s' 0) = 1"
    using c1 by (simp add: dg demo_def)
  have h2: "(0::nat) \<in> set (catalog demoDeleted)" by (simp add: demoDeleted_simps)
  have un2: "currentModelCache demoDeleted \<in> {Uncached, Pending}"
    by (simp add: demoDeleted_simps)
  note v = addSample_front_insert[OF h2, of demo 5 6]
  have c2: "fst (currentModel demoDeleted) = None"
    using v[THEN conjunct2, THEN conjunct2, THEN conjunct2, THEN conjunct2, THEN conjunct1,
        THEN mp, OF un2]
    by (simp add: demoDeleted_simps js_get_def)
  from v[THEN conjunct2, THEN conjunct2, THEN conjunct2, THEN conjunct1, THEN mp, OF c2]
  obtain s'' where t: "addSample demo demoDeleted 0 5 = Throw TypeError s''"
    and ge2: "gestures s'' = gestures demoDeleted"
    by blast
  have a2: "samples (gestureAt (post (addSample demo demoDeleted 0 5)) 0) = [5]"
    using v[THEN conjunct1] by (simp add: demoDeleted_simps demoGesture_def)
  from h c a b c0 c1 d ge ca h2 c2 ge2 a2 n t show ?thesis
    by (simp add: demoTwo_simps)
qed

text \<open>
  C7. addSample does not always update the matcher aligned with the currently selected
  gesture. On the store reached by two addGesture calls and deleteGesture of the second
  gesture, curGestureIndex is still 1 and the matcher array has one element: addSample on
  the gesture that is left puts the sample at the front of its samples, then the getter
  gives undefined and the call throws a TypeError, with no matcher updated and no array
  published. On the store where a reaction observes the getter since there was one
  gesture, and a second gesture has been added and is the current one, addSample on the
  second gesture returns normally, but the matcher updated with its data is the first
  gesture's, which mobx has kept for the getter; the matcher at curGestureIndex is as it
  was constructed.
\<close>

theorem addSample_misses_current_matcher:
  "catalog demoDeleted = [0] \<and> models demoDeleted = [0] \<and> curGestureIndex demoDeleted = 1 \<and>
   thrown (addSample demo demoDeleted 0 5) = Some TypeError \<and>
   samples (gestureAt (post (addSample demo demoDeleted 0 5)) 0) = [5] \<and>
   cores (post (addSample demo demoDeleted 0 5)) = cores demoDeleted \<and>
   gestures (post (addSample demo demoDeleted 0 5)) = gestures demoDeleted \<and>
   catalog demoObserved = [0, 1] \<and> models demoObserved = [0, 1] \<and>
   curGestureIndex demoObserved = 1 \<and>
   thrown (addSample demo demoObserved 1 5) = None \<and>
   coreAt (post (addSample demo demoObserved 1 5)) 1 =
     \<lparr>classNumber = 3, coreName = ''tilt'', trainedOn = None\<rparr> \<and>
   coreAt (post (addSample demo demoObserved 1 5)) 0 =
     \<lparr>classNumber = 2, coreName = ''shake'', trainedOn = Some ([5], 0)\<rparr>"
proof -
  have h: "(0::nat) \<in> set (catalog demoDeleted)" by (simp add: demoDeleted_simps)
  have n: "fst (currentModel demoDeleted) = None"
    by (simp add: currentModel_fst demoDeleted_simps js_get_def)
  from addSample_throws[OF h n, of demo 5]
  obtain s' where t: "addSample demo demoDeleted 0 5 = Throw TypeError s'"
    and sa: "samples (gestureAt s' 0) = 5 # samples (gestureAt demoDeleted 0)"
    and co: "cores s' = cores demoDeleted" and ge: "gestures s' = gestures demoDeleted"
    by blast
  have sa': "samples (gestureAt s' 0) = [5]"
    using sa by (simp add: demoDeleted_simps demoGesture_def)
  have h2: "(1::nat) \<in> set (catalog demoObserved)" by (simp add: demoObserved_simps)
  have c: "fst (currentModel demoObserved) = Some 0"
    by (simp add: currentModel_fst demoObserved_simps)
  from addSample_trains[OF h2 c, of demo 5]
  obtain s'' where r: "addSample demo demoObserved 1 5 = Normal s''"
    and co2: "cores s'' = (cores demoObserved)(0 \<mapsto> update demo (coreAt demoObserved 0)
        (getCroppedData demo
          ((gestureAt demoObserved 1)\<lparr>samples := 5 # samples (gestureAt demoObserved 1)\<rparr>))
        (latestTimestamp demoObserved))"
    by blast
  have c1: "coreAt s'' 1 = \<lparr>classNumber = 3, coreName = ''tilt'', trainedOn = None\<rparr>"
    using demoObserved_simps(7) by (simp add: coreAt_def co2)
  have c0: "coreAt s'' 0 = \<lparr>classNumber = 2, coreName = ''shake'', trainedOn = Some ([5], 0)\<rparr>"
    using demoObserved_simps(5)
    by (simp add: coreAt_def[of s''] co2 demoObserved_simps(6,8) demo_def)
  from sa' co ge c1 c0 t r show ?thesis
    by (simp add: demoDeleted_simps demoObserved_simps)
qed

section \<open>loadBlocks\<close>

lemma newObjects_below:
  "newObjects s gs = (rs, s') \<Longrightarrow> a < nextObject s \<Longrightarrow> objects s' a = objects s a"
proof (induction gs arbitrary: s rs s')
  case Nil
  then show ?case by simp
next
  case (Cons g gs)
  let ?s0 = "s\<lparr>objects := (objects s)(nextObject s \<mapsto> g), nextObject := nextObject s + 1\<rparr>"
  obtain rs0 s0 where r: "newObjects ?s0 gs = (rs0, s0)" by (cases "newObjects ?s0 gs")
  with Cons.prems have s': "s' = s0" by (simp add: Let_def)
  have "objects s0 a = objects ?s0 a" using Cons.prems(2) by (intro Cons.IH[OF r]) simp
  with Cons.prems(2) show ?case by (simp add: s')
qed

lemma newObjects_deref:
  "newObjects s gs = (rs, s') \<Longrightarrow> map (gestureAt s') rs = gs"
proof (induction gs arbitrary: s rs s')
  case Nil
  then show ?case by simp
next
  case (Cons g gs)
  let ?s0 = "s\<lparr>objects := (objects s)(nextObject s \<mapsto> g), nextObject := nextObject s + 1\<rparr>"
  obtain rs0 s0 where r: "newObjects ?s0 gs = (rs0, s0)" by (cases "newObjects ?s0 gs")
  with Cons.prems have e: "rs = nextObject s # rs0" "s' = s0" by (simp_all add: Let_def)
  have "objects s0 (nextObject s) = objects ?s0 (nextObject s)"
    by (rule newObjects_below[OF r]) simp
  then have "gestureAt s0 (nextObject s) = g" by (simp add: gestureAt_def)
  with Cons.IH[OF r] show ?case by (simp add: e)
qed

lemma gestureAt_cong: "objects s' = objects s \<Longrightarrow> gestureAt s' = gestureAt s"
  by (rule ext) (simp add: gestureAt_def)

lemma coreAt_cong: "cores s' = cores s \<Longrightarrow> coreAt s' = coreAt s"
  by (rule ext) (simp add: coreAt_def)

lemma newCores_below:
  "newCores s ms = (cs, s') \<Longrightarrow> a < nextCore s \<Longrightarrow> cores s' a = cores s a"
proof (induction ms arbitrary: s cs s')
  case Nil
  then show ?case by simp
next
  case (Cons m ms)
  let ?s0 = "s\<lparr>cores := (cores s)(nextCore s \<mapsto> m), nextCore := nextCore s + 1\<rparr>"
  obtain cs0 s0 where r: "newCores ?s0 ms = (cs0, s0)" by (cases "newCores ?s0 ms")
  with Cons.prems have s': "s' = s0" by (simp add: Let_def)
  have "cores s0 a = cores ?s0 a" using Cons.prems(2) by (intro Cons.IH[OF r]) simp
  with Cons.prems(2) show ?case by (simp add: s')
qed

lemma newCores_deref:
  "newCores s ms = (cs, s') \<Longrightarrow> map (coreAt s') cs = ms"
proof (induction ms arbitrary: s cs s')
  case Nil
  then show ?case by simp
next
  case (Cons m ms)
  let ?s0 = "s\<lparr>cores := (cores s)(nextCore s \<mapsto> m), nextCore := nextCore s + 1\<rparr>"
  obtain cs0 s0 where r: "newCores ?s0 ms = (cs0, s0)" by (cases "newCores ?s0 ms")
  with Cons.prems have e: "cs = nextCore s # cs0" "s' = s0" by (simp_all add: Let_def)
  have "cores s0 (nextCore s) = cores ?s0 (nextCore s)"
    by (rule newCores_below[OF r]) simp
  then have "coreAt s0 (nextCore s) = m" by (simp add: coreAt_def)
  with Cons.IH[OF r] show ?case by (simp add: e)
qed

lemma newCores_refs:
  "newCores s ms = (cs, s') \<Longrightarrow> cs = [nextCore s..<nextCore s + length ms]"
proof (induction ms arbitrary: s cs s')
  case Nil
  then show ?case by simp
next
  case (Cons m ms)
  let ?s0 = "s\<lparr>cores := (cores s)(nextCore s \<mapsto> m), nextCore := nextCore s + 1\<rparr>"
  obtain cs0 s0 where r: "newCores ?s0 ms = (cs0, s0)" by (cases "newCores ?s0 ms")
  with Cons.prems have e: "cs = nextCore s # cs0" by (simp add: Let_def)
  from Cons.IH[OF r] have c0: "cs0 = [Suc (nextCore s)..<Suc (nextCore s) + length ms]" by simp
  have "[nextCore s..<nextCore s + length (m # ms)] =
      nextCore s # [Suc (nextCore s)..<Suc (nextCore s) + length ms]"
    by (simp add: upt_conv_Cons del: upt_Suc)
  then show ?case unfolding e c0 by (rule sym)
qed

lemma loadBlocks_replaces:
  assumes "j \<noteq> []" and "JSON_parse ext j = JArray rs" and "parseAll (parseGesture ext) rs = Inr gs"
  shows "\<exists>s'. loadBlocks ext s code (Some j) = Normal s' \<and> gestures s' = nextArray s \<and>
           gestureList s' = gs \<and>
           matcherList s' =
             map (\<lambda>g. update ext (newCore ext (gestureID g + 1) (name g)) (getCroppedData ext g)
                        (latestTimestamp s)) gs \<and>
           models s' = [nextCore s..<nextCore s + length gs]"
proof -
  obtain os s1 where n: "newObjects s gs = (os, s1)" by (cases "newObjects s gs")
  note f = newObjects_frame[OF n]
  note d = newObjects_deref[OF n]
  define s3 where "s3 = s1\<lparr>arrays := (arrays s1)(nextArray s1 := os),
      nextArray := Suc (nextArray s1), gestures := nextArray s1\<rparr>"
  have ga: "gestureAt s3 = gestureAt s1"
    by (rule gestureAt_cong) (simp add: s3_def)
  have gl: "gestureList s3 = gs"
    using d by (simp add: gestureList_def catalog_def ga) (simp add: s3_def)
  define ms where "ms = map (\<lambda>gesture.
      update ext (newCore ext (gestureID gesture + 1) (name gesture))
        (getCroppedData ext gesture) (latestTimestamp s1)) (gestureList s3)"
  obtain cs s4 where c: "newCores s3 ms = (cs, s4)" by (cases "newCores s3 ms")
  note cf = newCores_frame[OF c]
  define s5 where "s5 = s4\<lparr>models := cs\<rparr>"
  have l: "loadBlocks ext s code (Some j) = Normal s5"
    unfolding s5_def
    by (rule loadBlocks_array[OF assms n c[unfolded ms_def s3_def]])
  have ga5: "gestureAt s5 = gestureAt s3"
    by (rule gestureAt_cong) (simp add: s5_def cf)
  have ca5: "coreAt s5 = coreAt s4"
    by (rule coreAt_cong) (simp add: s5_def)
  have cat: "catalog s5 = catalog s3"
    by (simp add: catalog_def s5_def cf)
  have 1: "gestureList s5 = gs"
    using gl by (simp add: gestureList_def ga5 cat)
  have 2: "matcherList s5 = ms"
    using newCores_deref[OF c] by (simp add: matcherList_def ca5) (simp add: s5_def)
  have 3: "ms = map (\<lambda>g. update ext (newCore ext (gestureID g + 1) (name g)) (getCroppedData ext g)
                        (latestTimestamp s)) gs"
    using f by (simp add: ms_def gl)
  have 4: "gestures s5 = nextArray s"
    using f cf by (simp add: s5_def s3_def)
  have lm: "length ms = length gs" by (simp add: ms_def gl)
  have nc: "nextCore s3 = nextCore s" using f by (simp add: s3_def)
  have 5: "models s5 = [nextCore s..<nextCore s + length gs]"
    using newCores_refs[OF c] unfolding lm nc by (simp add: s5_def)
  from l 1 2 3 4 5 show ?thesis by blast
qed

text \<open>
  C9, as the code has it. loadBlocks with a json argument that is missing (undefined or null) or
  the empty string, or that JSON.parse turns into a falsy value such as null, returns
  with the store unchanged. A json that parses to an array of records that parseGesture
  accepts replaces the catalog wholesale: this.gestures is a new array of the parsed
  gestures, and this.models is rebuilt from scratch with, for each gesture in order, a
  new matcher constructed with the gesture's id plus 1 and its name and updated with
  the gesture's cropped data and the current tick. That includes the empty array: it
  leaves an empty catalog and an empty matcher array.
\<close>

theorem loadBlocks_hydrate:
  "(json = None \<or> json = Some [] \<or> (\<exists>j. json = Some j \<and> JSON_parse ext j = JFalsy) \<longrightarrow>
      loadBlocks ext s code json = Normal s) \<and>
   (\<forall>j rs gs.
      json = Some j \<and> j \<noteq> [] \<and> JSON_parse ext j = JArray rs \<and>
      parseAll (parseGesture ext) rs = Inr gs \<longrightarrow>
      (\<exists>s'. loadBlocks ext s code json = Normal s' \<and> gestures s' = nextArray s \<and>
         gestureList s' = gs \<and>
         matcherList s' =
           map (\<lambda>g. update ext (newCore ext (gestureID g + 1) (name g)) (getCroppedData ext g)
                      (latestTimestamp s)) gs \<and>
         models s' = [nextCore s..<nextCore s + length gs])) \<and>
   (\<forall>j. json = Some j \<and> j \<noteq> [] \<and> JSON_parse ext j = JArray [] \<longrightarrow>
      catalog (post (loadBlocks ext s code json)) = [] \<and>
      models (post (loadBlocks ext s code json)) = [])"
proof -
  have 1: "loadBlocks ext s code json = Normal s"
    if "json = None \<or> json = Some [] \<or> (\<exists>j. json = Some j \<and> JSON_parse ext j = JFalsy)"
    using that by (auto simp: loadBlocks_def)
  have 2: "\<exists>s'. loadBlocks ext s code json = Normal s' \<and> gestures s' = nextArray s \<and>
         gestureList s' = gs \<and>
         matcherList s' =
           map (\<lambda>g. update ext (newCore ext (gestureID g + 1) (name g)) (getCroppedData ext g)
                      (latestTimestamp s)) gs \<and>
         models s' = [nextCore s..<nextCore s + length gs]"
    if "json = Some j \<and> j \<noteq> [] \<and> JSON_parse ext j = JArray rs \<and>
      parseAll (parseGesture ext) rs = Inr gs" for j rs gs
    using that loadBlocks_replaces[of j ext rs gs s code] by blast
  have 3: "catalog (post (loadBlocks ext s code json)) = [] \<and>
      models (post (loadBlocks ext s code json)) = []"
    if "json = Some j \<and> j \<noteq> [] \<and> JSON_parse ext j = JArray []" for j
  proof -
    have "parseAll (parseGesture ext) [] = Inr []" by simp
    with that 2[of j "[]" "[]"]
    obtain s' where "loadBlocks ext s code json = Normal s'" "gestureList s' = []"
      "models s' = [nextCore s..<nextCore s + length ([] :: 's Gesture list)]"
      by auto
    then show ?thesis by (simp add: gestureList_def)
  qed
  from 1 2 3 show ?thesis by blast
qed

theorem loadBlocks_hydrate_witness:
  "loadBlocks demo demoOne [] (Some ''null'') = Normal demoOne \<and>
   gestureList (post (loadBlocks demo demoOne [] (Some ''[{}]''))) =
     [\<lparr>gestureID = 7, name = ''wave'', samples = [3], displayGesture = 3\<rparr>] \<and>
   matcherList (post (loadBlocks demo demoOne [] (Some ''[{}]''))) =
     [\<lparr>classNumber = 8, coreName = ''wave'', trainedOn = Some ([3], 0)\<rparr>]"
proof -
  have n: "Some ''null'' = None \<or> Some ''null'' = Some [] \<or>
           (\<exists>j. Some ''null'' = Some j \<and> JSON_parse demo j = JFalsy)"
    by (simp add: demo_def)
  have a: "loadBlocks demo demoOne [] (Some ''null'') = Normal demoOne"
    using loadBlocks_hydrate[of "Some ''null''" demo demoOne "[]", THEN conjunct1, THEN mp, OF n] .
  have p: "Some ''[{}]'' = Some ''[{}]'' \<and> ''[{}]'' \<noteq> [] \<and>
      JSON_parse demo ''[{}]'' =
        JArray [\<lparr>gestureID = 7, name = ''wave'', samples = [3], displayGesture = 3\<rparr>] \<and>
      parseAll (parseGesture demo)
          [\<lparr>gestureID = 7, name = ''wave'', samples = [3], displayGesture = 3\<rparr>] =
        Inr [\<lparr>gestureID = 7, name = ''wave'', samples = [3], displayGesture = 3\<rparr>]"
    by (simp add: demo_def)
  from loadBlocks_hydrate[of "Some ''[{}]''" demo demoOne "[]", THEN conjunct2, THEN conjunct1,
      rule_format, OF p]
  obtain s' where s': "loadBlocks demo demoOne [] (Some ''[{}]'') = Normal s'"
    "gestureList s' = [\<lparr>gestureID = 7, name = ''wave'', samples = [3], displayGesture = 3\<rparr>]"
    "matcherList s' =
       map (\<lambda>g. update demo (newCore demo (gestureID g + 1) (name g)) (getCroppedData demo g)
                  (latestTimestamp demoOne))
         [\<lparr>gestureID = 7, name = ''wave'', samples = [3], displayGesture = 3\<rparr>]"
    by blast
  have m: "matcherList s' = [\<lparr>classNumber = 8, coreName = ''wave'', trainedOn = Some ([3], 0)\<rparr>]"
    unfolding s'(3) by (simp add: demo_def demoOne_simps)
  from a s'(2) m show ?thesis by (simp add: s'(1))
qed

theorem loadBlocks_empty_array_counterexample:
  "JSON_parse demo ''[]'' = JArray [] \<and>
   catalog demoOne = [0] \<and>
   catalog (post (loadBlocks demo demoOne [] (Some ''[]''))) = [] \<and>
   length (models demoOne) = 1 \<and>
   models (post (loadBlocks demo demoOne [] (Some ''[]''))) = []"
proof -
  have j: "JSON_parse demo ''[]'' = JArray []" by (simp add: demo_def)
  have p: "parseAll (parseGesture demo) [] = Inr []" by simp
  from loadBlocks_replaces[OF _ j p, of demoOne "[]"]
  obtain s' where s': "loadBlocks demo demoOne [] (Some ''[]'') = Normal s'"
    "gestureList s' = []" "models s' = [nextCore demoOne..<nextCore demoOne + length ([] :: nat Gesture list)]"
    by auto
  from s'(2) have "catalog s' = []" by (simp add: gestureList_def)
  with j s' show ?thesis by (simp add: demoOne_simps)
qed

section \<open>Responses from the host\<close>

lemma sendRequest_frame:
  "idToType (sendRequest s a b) = (idToType s)(randoms s (drawn s) \<mapsto> a)"
  "randoms (sendRequest s a b) = randoms s"
  "drawn (sendRequest s a b) = drawn s + 1"
  by (simp_all add: sendRequest_def Let_def)

lemma onSensorData_frame:
  "idToType (onSensorData ext s d) = idToType s"
  "randoms (onSensorData ext s d) = randoms s"
  "drawn (onSensorData ext s d) = drawn s"
  by (simp_all add: onSensorData_def Let_def READING_HISTORY_LIMIT_def feedCurrentModel_frame)

lemma onSerialData_frame:
  "idToType (onSerialData ext s b) = idToType s"
  "randoms (onSerialData ext s b) = randoms s"
  "drawn (onSerialData ext s b) = drawn s"
  by (simp_all add: onSerialData_def Let_def onSensorData_frame)

lemma loadBlocks_frame:
  "idToType (post (loadBlocks ext s code json)) = idToType s \<and>
   randoms (post (loadBlocks ext s code json)) = randoms s \<and>
   drawn (post (loadBlocks ext s code json)) = drawn s"
proof (cases json)
  case None
  then show ?thesis by (simp add: loadBlocks_def)
next
  case (Some j)
  show ?thesis
  proof (cases "JSON_parse ext j")
    case (JArray rs)
    show ?thesis
    proof (cases "parseAll (parseGesture ext) rs")
      case (Inl e)
      with Some JArray show ?thesis by (simp add: loadBlocks_def)
    next
      case (Inr gs)
      show ?thesis
      proof (cases "j = []")
        case True
        with Some show ?thesis by (simp add: loadBlocks_def)
      next
        case False
        obtain rs0 s0 where r: "newObjects s gs = (rs0, s0)" by (cases "newObjects s gs")
        define s3 where "s3 = s0\<lparr>arrays := (arrays s0)(nextArray s0 := rs0),
            nextArray := Suc (nextArray s0), gestures := nextArray s0\<rparr>"
        define ms where "ms = map (\<lambda>gesture.
            update ext (newCore ext (gestureID gesture + 1) (name gesture))
              (getCroppedData ext gesture) (latestTimestamp s0)) (gestureList s3)"
        obtain cs s4 where c: "newCores s3 ms = (cs, s4)" by (cases "newCores s3 ms")
        have l: "loadBlocks ext s code json = Normal (s4\<lparr>models := cs\<rparr>)"
          unfolding Some
          by (rule loadBlocks_array[OF False JArray Inr r c[unfolded ms_def s3_def]])
        show ?thesis
          using newCores_frame[OF c] newObjects_frame[OF r] by (simp add: l s3_def)
      qed
    qed
  qed (use Some in \<open>simp_all add: loadBlocks_def\<close>)
qed

lemma receiveMessage_unknown_id:
  assumes "in_event data = None \<or> in_event data = Some []" and "idToType s (in_id data) = None"
  shows "receiveMessage ext s data = Normal s"
proof -
  have "(idToType s)(in_id data := None) = idToType s"
    using assms(2) by (simp add: fun_upd_idem)
  with assms show ?thesis by (auto simp: receiveMessage_def Let_def)
qed

lemma receiveMessage_keeps_absent:
  assumes "idToType s i = None" and "\<forall>n\<ge>drawn s. randoms s n \<noteq> i"
  shows "idToType (post (receiveMessage ext s m)) i = None \<and>
         randoms (post (receiveMessage ext s m)) = randoms s \<and>
         drawn s \<le> drawn (post (receiveMessage ext s m))"
proof -
  have r0: "randoms s (drawn s) \<noteq> i" and r1: "randoms s (Suc (drawn s)) \<noteq> i"
    using assms(2) by simp_all
  show ?thesis
    using assms(1) r0 r1 loadBlocks_frame[of ext "s\<lparr>idToType := (idToType s)(in_id m := None)\<rparr>"
        "resp_code m" "resp_json m"]
    by (simp add: receiveMessage_def Let_def sendRequest_frame onSerialData_frame)
qed

lemma onWindowMessage_keeps_absent:
  assumes "idToType s i = None" and "\<forall>n\<ge>drawn s. randoms s n \<noteq> i"
  shows "idToType (post (onWindowMessage ext s m)) i = None \<and>
         randoms (post (onWindowMessage ext s m)) = randoms s \<and>
         drawn s \<le> drawn (post (onWindowMessage ext s m))"
  using receiveMessage_keeps_absent[OF assms, of ext m] assms(1)
  by (simp add: onWindowMessage_def)

lemma receiveAll_keeps_absent:
  "idToType s i = None \<Longrightarrow> \<forall>n\<ge>drawn s. randoms s n \<noteq> i \<Longrightarrow>
   idToType (receiveAll ext s ms) i = None"
proof (induction ms arbitrary: s)
  case Nil
  then show ?case by (simp add: receiveAll_def)
next
  case (Cons m ms)
  let ?s1 = "post (onWindowMessage ext s m)"
  note k = onWindowMessage_keeps_absent[OF Cons.prems, of ext m]
  have "\<forall>n\<ge>drawn ?s1. randoms ?s1 n \<noteq> i"
    using k Cons.prems(2) by auto
  with k have "idToType (receiveAll ext ?s1 ms) i = None"
    by (intro Cons.IH) simp_all
  then show ?case by (simp add: receiveAll_def)
qed

lemma receiveMessage_consumes:
  assumes "in_event data = None \<or> in_event data = Some []"
    and "in_id data \<noteq> randoms s (drawn s)" and "in_id data \<noteq> randoms s (drawn s + 1)"
  shows "idToType (post (receiveMessage ext s data)) (in_id data) = None"
  using assms loadBlocks_frame[of ext "s\<lparr>idToType := (idToType s)(in_id data := None)\<rparr>"
        "resp_code data" "resp_json data"]
  by (auto simp: receiveMessage_def Let_def sendRequest_frame)

lemma receiveMessage_randoms:
  "randoms (post (receiveMessage ext s m)) = randoms s \<and>
   drawn s \<le> drawn (post (receiveMessage ext s m))"
  using loadBlocks_frame[of ext "s\<lparr>idToType := (idToType s)(in_id m := None)\<rparr>"
        "resp_code m" "resp_json m"]
  by (simp add: receiveMessage_def Let_def sendRequest_frame onSerialData_frame)

text \<open>
  C8. For a message without an event name (a response): if its id has no pending entry
  (it was never recorded, or it has been consumed), receiveMessage returns with the store
  unchanged, so nothing is dispatched. Handling a response removes the entry of its id:
  unless Math.random gives the same id again to one of the two requests the dispatch may
  send, the id is not pending afterwards and the same response arriving again changes
  nothing. And as long as Math.random never returns that id again, it stays without an
  entry through every later sequence of messages, so every later copy of the response is
  ignored: a request's response is consumed at most once. A pending read-code response
  is dispatched to loadBlocks after its entry has been removed.
\<close>

theorem response_consumed_once:
  assumes "in_event data = None \<or> in_event data = Some []"
  shows
    "(idToType s (in_id data) = None \<longrightarrow> receiveMessage ext s data = Normal s) \<and>
     (idToType s (in_id data) = Some ''extreadcode'' \<longrightarrow>
        receiveMessage ext s data =
          loadBlocks ext (s\<lparr>idToType := (idToType s)(in_id data := None)\<rparr>)
            (resp_code data) (resp_json data)) \<and>
     (in_id data \<noteq> randoms s (drawn s) \<and> in_id data \<noteq> randoms s (drawn s + 1) \<longrightarrow>
        idToType (post (receiveMessage ext s data)) (in_id data) = None \<and>
        receiveMessage ext (post (receiveMessage ext s data)) data =
          Normal (post (receiveMessage ext s data))) \<and>
     ((\<forall>n\<ge>drawn s. randoms s n \<noteq> in_id data) \<longrightarrow>
        (\<forall>ms. idToType (receiveAll ext (post (receiveMessage ext s data)) ms) (in_id data) = None \<and>
              receiveMessage ext (receiveAll ext (post (receiveMessage ext s data)) ms) data =
                Normal (receiveAll ext (post (receiveMessage ext s data)) ms)))"
proof -
  let ?s1 = "post (receiveMessage ext s data)"
  have 1: "receiveMessage ext s data = Normal s" if "idToType s (in_id data) = None"
    using assms that by (rule receiveMessage_unknown_id)
  have 2: "receiveMessage ext s data =
          loadBlocks ext (s\<lparr>idToType := (idToType s)(in_id data := None)\<rparr>)
            (resp_code data) (resp_json data)"
    if "idToType s (in_id data) = Some ''extreadcode''"
    using assms that by (auto simp: receiveMessage_def Let_def)
  have 3: "idToType ?s1 (in_id data) = None \<and> receiveMessage ext ?s1 data = Normal ?s1"
    if "in_id data \<noteq> randoms s (drawn s) \<and> in_id data \<noteq> randoms s (drawn s + 1)"
  proof -
    have "idToType ?s1 (in_id data) = None"
      using assms that by (intro receiveMessage_consumes) simp_all
    then show ?thesis using receiveMessage_unknown_id[OF assms] by simp
  qed
  have 4: "idToType (receiveAll ext ?s1 ms) (in_id data) = None \<and>
           receiveMessage ext (receiveAll ext ?s1 ms) data = Normal (receiveAll ext ?s1 ms)"
    if n: "\<forall>n\<ge>drawn s. randoms s n \<noteq> in_id data" for ms
  proof -
    have "in_id data \<noteq> randoms s (drawn s) \<and> in_id data \<noteq> randoms s (drawn s + 1)"
      using n by (metis le_add1 order_refl)
    then have a: "idToType ?s1 (in_id data) = None" using 3 by simp
    have b: "\<forall>n\<ge>drawn ?s1. randoms ?s1 n \<noteq> in_id data"
      using receiveMessage_randoms[of ext s data] n by auto
    have "idToType (receiveAll ext ?s1 ms) (in_id data) = None"
      using a b by (rule receiveAll_keeps_absent)
    then show ?thesis using receiveMessage_unknown_id[OF assms] by simp
  qed
  from 1 2 3 4 show ?thesis by blast
qed

theorem response_consumed_once_witness:
  "(in_event demoResponse = None \<or> in_event demoResponse = Some []) \<and>
   idToType demoStore (in_id demoResponse) = Some ''extinit'' \<and>
   idToType (post (receiveMessage demo demoStore demoResponse)) (in_id demoResponse) = None \<and>
   receiveMessage demo (post (receiveMessage demo demoStore demoResponse)) demoResponse =
     Normal (post (receiveMessage demo demoStore demoResponse)) \<and>
   receiveMessage demo demoStore (demoResponse\<lparr>in_id := ''never sent''\<rparr>) = Normal demoStore \<and>
   idToType
     (receiveAll demo (post (receiveMessage demo demoStore demoResponse))
        [demoResponse, demoResponse\<lparr>in_event := Some ''extshown''\<rparr>, demoResponse])
     (in_id demoResponse) = None"
proof -
  have h: "in_event demoResponse = None \<or> in_event demoResponse = Some []"
    by (simp add: demoResponse_def)
  have h': "in_event (demoResponse\<lparr>in_id := ''never sent''\<rparr>) = None \<or>
            in_event (demoResponse\<lparr>in_id := ''never sent''\<rparr>) = Some []"
    by (simp add: demoResponse_def)
  have p: "idToType demoStore (in_id demoResponse) = Some ''extinit''"
    by (simp add: demoStore_def constructor_def newStore_def sendRequest_def Let_def
        demoResponse_def)
  have r: "randoms demoStore = (\<lambda>n. replicate (Suc n) (CHR ''r''))" "drawn demoStore = 1"
    by (simp_all add: demoStore_def constructor_def newStore_def sendRequest_def Let_def)
  have f: "in_id demoResponse \<noteq> randoms demoStore (drawn demoStore) \<and>
           in_id demoResponse \<noteq> randoms demoStore (drawn demoStore + 1)"
    by (simp add: r demoResponse_def)
  note a = response_consumed_once[OF h, of demoStore demo, THEN conjunct2, THEN conjunct2,
      THEN conjunct1, THEN mp, OF f]
  have u: "idToType demoStore (in_id (demoResponse\<lparr>in_id := ''never sent''\<rparr>)) = None"
    by (simp add: demoStore_def constructor_def newStore_def sendRequest_def Let_def)
  note b = response_consumed_once[OF h', of demoStore demo, THEN conjunct1, THEN mp, OF u]
  have g: "\<forall>n\<ge>drawn demoStore. randoms demoStore n \<noteq> in_id demoResponse"
    by (auto simp: r demoResponse_def dest: arg_cong[where f = length])
  note c = response_consumed_once[OF h, of demoStore demo, THEN conjunct2, THEN conjunct2,
      THEN conjunct2, THEN mp, OF g, rule_format,
      of "[demoResponse, demoResponse\<lparr>in_event := Some ''extshown''\<rparr>, demoResponse]",
      THEN conjunct1]
  from h p a b c show ?thesis by blast
qed

end
